theory Spec2Isabelle
  imports Main "HOL-Library.AList"
begin

section \<open>Values, path segments and the runtime\<close>

text \<open>
  The node modal works on the values \<^verbatim>\<open>JSON.parse\<close> returns and on what property
  reads and writes make of them.
  \<^item> \<^verbatim>\<open>JUndefined\<close> is the result of reading a property that is not there; inside an
    array it stands for a hole (an index below the length that was never written).
    Holes arise only from the one assignment a call makes, and nothing but
    \<^verbatim>\<open>JSON.stringify\<close> reads the document after it.
  \<^item> \<open>JNative\<close> is an object of the engine's own, reached through the prototype
    chain: a built-in function or prototype object, named by the engine.
  \<^item> Numbers are the integers, of a size the engine holds exactly and prints in plain
    decimal; the code never computes with a number, it only carries them between
    \<^verbatim>\<open>JSON.parse\<close> and \<^verbatim>\<open>JSON.stringify\<close> and uses them as property names.
  \<^item> A \<^typ>\<open>char\<close> stands for one code unit of a string.
  \<^item> An object is the list of its own properties in the order the engine enumerates
    them.
\<close>

datatype jsval =
    JUndefined
  | JNull
  | JBool bool
  | JNum int
  | JStr string
  | JArr "jsval list"
  | JObj "(string \<times> jsval) list"
  | JNative string

text \<open>A segment of \<^verbatim>\<open>NodeData["path"]\<close>: \<^verbatim>\<open>string | number\<close>, the number an integer.\<close>

datatype segment = Key string | Idx int

datatype js_error = TypeError | RangeError | Error string

text \<open>
  What has a prototype chain: the five kinds of values a document holds besides \<^verbatim>\<open>null\<close>,
  and the engine's own objects.
\<close>

datatype kind = KObject | KArray | KString | KNumber | KBoolean | KNative string

text \<open>
  What the prototype chain answers to a read of a name the value does not have itself:
  nothing, a member, or an accessor whose getter throws.
\<close>

datatype lookup = NoMember | Member jsval | GetterThrows

text \<open>
  What the prototype chain answers to an assignment under a name the value does not
  have itself. \<open>Plain\<close>: nothing in the chain stands in the way, the property is created
  on the receiver if the receiver is an object. \<open>Setter\<close>: an inherited accessor takes
  the value (as \<^verbatim>\<open>__proto__\<close> does); it returns normally and the receiver gets no
  property. \<open>Refused\<close>: an inherited read-only member, an accessor without a setter or
  a setter that throws; in strict code the assignment throws.
\<close>

datatype put_kind = Plain | Setter | Refused

text \<open>
  What the engine defines and the sources do not is a parameter: \<^verbatim>\<open>JSON.parse\<close> (\<open>None\<close>
  when it throws \<^verbatim>\<open>SyntaxError\<close>), the conversion an assignment to an array's \<^verbatim>\<open>length\<close>
  applies to the assigned value (\<open>None\<close> when it throws \<^verbatim>\<open>RangeError\<close>), the built-in
  prototype chains (reads and assignments, by kind and name), the text
  \<^verbatim>\<open>JSON.stringify\<close> gives one of the engine's own objects at an indentation, the
  longest string the engine builds, and the messages of the engine's errors. Every
  statement below holds for every such runtime.
\<close>

record runtime =
  JSON_parse :: "string \<Rightarrow> jsval option"
  ArraySetLength :: "jsval \<Rightarrow> nat option"
  Inherited :: "kind \<Rightarrow> string \<Rightarrow> lookup"
  InheritedSet :: "kind \<Rightarrow> string \<Rightarrow> put_kind"
  NativeText :: "string \<Rightarrow> string \<Rightarrow> string option"
  MaxStringLength :: nat
  ErrorText :: "js_error \<Rightarrow> string"

subsection \<open>Numbers as text, property names, array indices\<close>

definition digit_char :: "nat \<Rightarrow> char" where
  "digit_char d = ''0123456789'' ! d"

definition digit_value :: "char \<Rightarrow> nat" where
  "digit_value c = of_char c - 48"

definition is_digit :: "char \<Rightarrow> bool" where
  "is_digit c = (c \<in> set ''0123456789'')"

fun show_nat :: "nat \<Rightarrow> string" where
  "show_nat n = (if n < 10 then [digit_char n] else show_nat (n div 10) @ [digit_char (n mod 10)])"

declare show_nat.simps [simp del]

text \<open>\<^verbatim>\<open>Number.prototype.toString\<close> on an integer.\<close>

definition show_int :: "int \<Rightarrow> string" where
  "show_int n = (if n < 0 then ''-'' @ show_nat (nat (- n)) else show_nat (nat n))"

text \<open>The property key a segment names: a number is converted to its text.\<close>

fun prop_name :: "segment \<Rightarrow> string" where
  "prop_name (Key k) = k"
| "prop_name (Idx n) = show_int n"

text \<open>
  The canonical text of a natural number has digits only and no leading zero. A
  property name is an array index when it is the canonical text of a number below
  \<open>2^32 - 1\<close>; every other name is an ordinary property name, also on an array.
\<close>

definition numeral_value :: "string \<Rightarrow> nat option" where
  "numeral_value k =
     (if k \<noteq> [] \<and> list_all is_digit k \<and> (k = ''0'' \<or> hd k \<noteq> CHR ''0'')
      then Some (foldl (\<lambda>a c. 10 * a + digit_value c) 0 k)
      else None)"

definition canonical_index :: "string \<Rightarrow> nat option" where
  "canonical_index k =
     (case numeral_value k of
        None \<Rightarrow> None
      | Some n \<Rightarrow> if n < 4294967295 then Some n else None)"

definition array_index :: "segment \<Rightarrow> nat option" where
  "array_index s = canonical_index (prop_name s)"

subsection \<open>Reading a property: \<^verbatim>\<open>current[path[i]]\<close>\<close>

text \<open>A read that the value itself does not answer goes to its prototype chain.\<close>

definition inherit :: "runtime \<Rightarrow> kind \<Rightarrow> string \<Rightarrow> js_error + jsval" where
  "inherit rt k name =
     (case Inherited rt k name of
        NoMember \<Rightarrow> Inr JUndefined
      | Member m \<Rightarrow> Inr m
      | GetterThrows \<Rightarrow> Inl TypeError)"

text \<open>
  Reading from \<^verbatim>\<open>undefined\<close> or \<^verbatim>\<open>null\<close> throws \<^verbatim>\<open>TypeError\<close>. A string has its code
  units and its length, an array its elements and its length, an object its keys;
  every other name, and every name on a number, a boolean or an object of the engine,
  is looked up in the prototype chain.
\<close>

fun js_get :: "runtime \<Rightarrow> jsval \<Rightarrow> segment \<Rightarrow> js_error + jsval" where
  "js_get rt JUndefined s = Inl TypeError"
| "js_get rt JNull s = Inl TypeError"
| "js_get rt (JBool b) s = inherit rt KBoolean (prop_name s)"
| "js_get rt (JNum n) s = inherit rt KNumber (prop_name s)"
| "js_get rt (JStr t) s =
     (case array_index s of
        Some i \<Rightarrow> if i < length t then Inr (JStr [t ! i]) else inherit rt KString (prop_name s)
      | None \<Rightarrow>
          if prop_name s = ''length'' then Inr (JNum (int (length t)))
          else inherit rt KString (prop_name s))"
| "js_get rt (JArr xs) s =
     (case array_index s of
        Some i \<Rightarrow> if i < length xs then Inr (xs ! i) else inherit rt KArray (prop_name s)
      | None \<Rightarrow>
          if prop_name s = ''length'' then Inr (JNum (int (length xs)))
          else inherit rt KArray (prop_name s))"
| "js_get rt (JObj kvs) s =
     (case map_of kvs (prop_name s) of
        Some v \<Rightarrow> Inr v
      | None \<Rightarrow> inherit rt KObject (prop_name s))"
| "js_get rt (JNative f) s = inherit rt (KNative f) (prop_name s)"

text \<open>
  The loop \<^verbatim>\<open>for (i = 0; i < n; i++) current = current[path[i]]\<close> over the given
  segments; the first exception ends it.
\<close>

fun navigate :: "runtime \<Rightarrow> jsval \<Rightarrow> segment list \<Rightarrow> js_error + jsval" where
  "navigate rt current [] = Inr current"
| "navigate rt current (s # ss) =
     (case js_get rt current s of Inl e \<Rightarrow> Inl e | Inr nxt \<Rightarrow> navigate rt nxt ss)"

subsection \<open>\<^verbatim>\<open>JSON.stringify(value, null, 2)\<close>\<close>

definition hex_char :: "nat \<Rightarrow> char" where
  "hex_char d = ''0123456789abcdef'' ! d"

text \<open>One code unit inside a quoted string.\<close>

definition quote_char :: "char \<Rightarrow> string" where
  "quote_char c =
     (if c = CHR 0x22 then [CHR 0x5C, CHR 0x22]
      else if c = CHR 0x5C then [CHR 0x5C, CHR 0x5C]
      else if c = CHR 0x08 then [CHR 0x5C, CHR ''b'']
      else if c = CHR 0x09 then [CHR 0x5C, CHR ''t'']
      else if c = CHR 0x0A then [CHR 0x5C, CHR ''n'']
      else if c = CHR 0x0C then [CHR 0x5C, CHR ''f'']
      else if c = CHR 0x0D then [CHR 0x5C, CHR ''r'']
      else if (of_char c :: nat) < 32
        then [CHR 0x5C, CHR ''u'', CHR ''0'', CHR ''0'',
              hex_char (of_char c div 16), hex_char (of_char c mod 16)]
      else [c])"

definition QuoteJSONString :: "string \<Rightarrow> string" where
  "QuoteJSONString s = [CHR 0x22] @ concat (map quote_char s) @ [CHR 0x22]"

text \<open>\<^verbatim>\<open>Array.prototype.join\<close> on strings.\<close>

fun join :: "string \<Rightarrow> string list \<Rightarrow> string" where
  "join sep [] = []"
| "join sep [x] = x"
| "join sep (x # y # ys) = x @ sep @ join sep (y # ys)"

text \<open>
  An array or object with nothing to print is \<^verbatim>\<open>[]\<close> or \<^verbatim>\<open>{}\<close>; otherwise each part
  stands on a line of its own, indented two spaces more than the enclosing value.
\<close>

definition bracketed :: "string \<Rightarrow> string \<Rightarrow> string \<Rightarrow> string list \<Rightarrow> string" where
  "bracketed opn cls stepback parts =
     (if parts = [] then opn @ cls
      else opn @ [CHR 0x0A] @ stepback @ ''  ''
           @ join ('','' @ [CHR 0x0A] @ stepback @ ''  '') parts
           @ [CHR 0x0A] @ stepback @ cls)"

text \<open>
  \<^verbatim>\<open>undefined\<close> has no text. As an array element it is printed \<^verbatim>\<open>null\<close>; as the value
  of a property, the property is left out. The values of a document inherit no
  \<^verbatim>\<open>toJSON\<close>: no built-in prototype of theirs defines one.
\<close>

fun SerializeJSONProperty :: "runtime \<Rightarrow> string \<Rightarrow> jsval \<Rightarrow> string option"
  and SerializeJSONArray :: "runtime \<Rightarrow> string \<Rightarrow> jsval list \<Rightarrow> string list"
  and SerializeJSONObject :: "runtime \<Rightarrow> string \<Rightarrow> (string \<times> jsval) list \<Rightarrow> string list"
where
  "SerializeJSONProperty rt ind JUndefined = None"
| "SerializeJSONProperty rt ind JNull = Some ''null''"
| "SerializeJSONProperty rt ind (JBool b) = Some (if b then ''true'' else ''false'')"
| "SerializeJSONProperty rt ind (JNum n) = Some (show_int n)"
| "SerializeJSONProperty rt ind (JStr s) = Some (QuoteJSONString s)"
| "SerializeJSONProperty rt ind (JArr xs) =
     Some (bracketed ''['' '']'' ind (SerializeJSONArray rt (ind @ ''  '') xs))"
| "SerializeJSONProperty rt ind (JObj kvs) =
     Some (bracketed ''{'' ''}'' ind (SerializeJSONObject rt (ind @ ''  '') kvs))"
| "SerializeJSONProperty rt ind (JNative f) = NativeText rt f ind"
| "SerializeJSONArray rt ind [] = []"
| "SerializeJSONArray rt ind (x # xs) =
     (case SerializeJSONProperty rt ind x of None \<Rightarrow> ''null'' | Some t \<Rightarrow> t)
       # SerializeJSONArray rt ind xs"
| "SerializeJSONObject rt ind [] = []"
| "SerializeJSONObject rt ind ((k, v) # kvs) =
     (case SerializeJSONProperty rt ind v of
        None \<Rightarrow> SerializeJSONObject rt ind kvs
      | Some t \<Rightarrow> (QuoteJSONString k @ '': '' @ t) # SerializeJSONObject rt ind kvs)"

text \<open>The text of a value, whatever its length.\<close>

definition json_text :: "runtime \<Rightarrow> jsval \<Rightarrow> string option" where
  "json_text rt v = SerializeJSONProperty rt [] v"

text \<open>A text longer than the engine's strings makes \<^verbatim>\<open>JSON.stringify\<close> throw \<^verbatim>\<open>RangeError\<close>.\<close>

definition JSON_stringify :: "runtime \<Rightarrow> jsval \<Rightarrow> js_error + string option" where
  "JSON_stringify rt v =
     (case json_text rt v of
        None \<Rightarrow> Inr None
      | Some t \<Rightarrow> if length t \<le> MaxStringLength rt then Inr (Some t) else Inl RangeError)"

section \<open>The functions of the node modal\<close>

subsection \<open>\<^verbatim>\<open>getFullNodeValue\<close>\<close>

text \<open>The \<^verbatim>\<open>catch\<close> turns every exception into the text \<^verbatim>\<open>{}\<close>.\<close>

definition or_fallback :: "js_error + string option \<Rightarrow> string option" where
  "or_fallback r = (case r of Inl e \<Rightarrow> Some ''{}'' | Inr t \<Rightarrow> t)"

text \<open>
  The result is a string, or \<^verbatim>\<open>undefined\<close> (\<open>None\<close>) when \<^verbatim>\<open>JSON.stringify\<close> is given
  \<^verbatim>\<open>undefined\<close> or a function.
\<close>

definition getFullNodeValue :: "runtime \<Rightarrow> string \<Rightarrow> segment list option \<Rightarrow> string option" where
  "getFullNodeValue rt jsonString path =
     (case JSON_parse rt jsonString of
        None \<Rightarrow> Some ''{}''
      | Some json \<Rightarrow>
          (case path of
             None \<Rightarrow> or_fallback (JSON_stringify rt json)
           | Some p \<Rightarrow>
               if length p = 0 then or_fallback (JSON_stringify rt json)
               else (case navigate rt json p of
                       Inl e \<Rightarrow> Some ''{}''
                     | Inr current \<Rightarrow> or_fallback (JSON_stringify rt current))))"

subsection \<open>Writing a property: \<^verbatim>\<open>current[lastKey] = newValue\<close>\<close>

text \<open>
  A new key of an object is enumerated after the keys already there, except that keys
  which are array indices come first, in ascending order.
\<close>

fun add_index_key :: "nat \<Rightarrow> string \<times> jsval \<Rightarrow> (string \<times> jsval) list \<Rightarrow> (string \<times> jsval) list" where
  "add_index_key n kv [] = [kv]"
| "add_index_key n kv (p # ps) =
     (case canonical_index (fst p) of
        Some m \<Rightarrow> if m < n then p # add_index_key n kv ps else kv # p # ps
      | None \<Rightarrow> kv # p # ps)"

text \<open>The own properties after a key was written or created.\<close>

definition obj_set :: "(string \<times> jsval) list \<Rightarrow> string \<Rightarrow> jsval \<Rightarrow> (string \<times> jsval) list" where
  "obj_set kvs k v =
     (if map_of kvs k \<noteq> None then AList.update k v kvs
      else (case canonical_index k of
              None \<Rightarrow> kvs @ [(k, v)]
            | Some n \<Rightarrow> add_index_key n (k, v) kvs))"

text \<open>
  An assignment to a key the object has writes it. Under any other name the prototype
  chain decides: the key is created, an inherited setter takes the value and the
  object stays as it is, or the assignment throws.
\<close>

definition obj_put ::
  "runtime \<Rightarrow> (string \<times> jsval) list \<Rightarrow> string \<Rightarrow> jsval \<Rightarrow> js_error + (string \<times> jsval) list" where
  "obj_put rt kvs k v =
     (if map_of kvs k \<noteq> None then Inr (obj_set kvs k v)
      else (case InheritedSet rt KObject k of
              Plain \<Rightarrow> Inr (obj_set kvs k v)
            | Setter \<Rightarrow> Inr kvs
            | Refused \<Rightarrow> Inl TypeError))"

text \<open>
  The file is a module, so its code is strict. An assignment on \<^verbatim>\<open>undefined\<close> or \<^verbatim>\<open>null\<close>
  throws \<^verbatim>\<open>TypeError\<close>. On a string, number or boolean it throws as well, unless an
  inherited setter takes the value. On an array, an index below the length is
  written; an index at or beyond the length extends the array and leaves holes below
  it, if the prototype chain does not intervene; \<^verbatim>\<open>length\<close> resizes the array or
  throws \<^verbatim>\<open>RangeError\<close>; any other name becomes a property of the array object that
  \<^verbatim>\<open>JSON.stringify\<close>, the only reader afterwards, does not print. An assignment on an
  object of the engine changes that object, not the document.
\<close>

fun js_set :: "runtime \<Rightarrow> jsval \<Rightarrow> segment \<Rightarrow> jsval \<Rightarrow> js_error + jsval" where
  "js_set rt JUndefined s v = Inl TypeError"
| "js_set rt JNull s v = Inl TypeError"
| "js_set rt (JBool b) s v =
     (case InheritedSet rt KBoolean (prop_name s) of
        Setter \<Rightarrow> Inr (JBool b) | _ \<Rightarrow> Inl TypeError)"
| "js_set rt (JNum n) s v =
     (case InheritedSet rt KNumber (prop_name s) of
        Setter \<Rightarrow> Inr (JNum n) | _ \<Rightarrow> Inl TypeError)"
| "js_set rt (JStr t) s v =
     (if (case array_index s of Some i \<Rightarrow> i < length t | None \<Rightarrow> prop_name s = ''length'')
      then Inl TypeError
      else (case InheritedSet rt KString (prop_name s) of
              Setter \<Rightarrow> Inr (JStr t) | _ \<Rightarrow> Inl TypeError))"
| "js_set rt (JArr xs) s v =
     (case array_index s of
        Some i \<Rightarrow>
          if i < length xs then Inr (JArr (xs[i := v]))
          else (case InheritedSet rt KArray (prop_name s) of
                  Plain \<Rightarrow> Inr (JArr (xs @ replicate (i - length xs) JUndefined @ [v]))
                | Setter \<Rightarrow> Inr (JArr xs)
                | Refused \<Rightarrow> Inl TypeError)
      | None \<Rightarrow>
          if prop_name s = ''length''
          then (case ArraySetLength rt v of
                  None \<Rightarrow> Inl RangeError
                | Some n \<Rightarrow> Inr (JArr (take n xs @ replicate (n - length xs) JUndefined)))
          else (case InheritedSet rt KArray (prop_name s) of
                  Refused \<Rightarrow> Inl TypeError | _ \<Rightarrow> Inr (JArr xs)))"
| "js_set rt (JObj kvs) s v =
     (case obj_put rt kvs (prop_name s) v of Inl e \<Rightarrow> Inl e | Inr kvs' \<Rightarrow> Inr (JObj kvs'))"
| "js_set rt (JNative f) s v =
     (case InheritedSet rt (KNative f) (prop_name s) of
        Refused \<Rightarrow> Inl TypeError | _ \<Rightarrow> Inr (JNative f))"

text \<open>
  \<^verbatim>\<open>current\<close> is a reference. Where the loop went through properties the values
  themselves hold, the object it reached is the one the document holds at those
  segments (\<^verbatim>\<open>JSON.parse\<close> returns a tree, nothing in it is shared), so after the
  assignment the document has the changed object at that place. Where a step went
  to the prototype chain, the object reached is the engine's and the document stays
  as it is. \<open>held v s\<close> is what \<open>v\<close> itself holds under \<open>s\<close>; \<open>write_back root ss new\<close> is
  the document after the object at \<open>ss\<close> became \<open>new\<close>.
\<close>

fun held :: "jsval \<Rightarrow> segment \<Rightarrow> jsval option" where
  "held (JObj kvs) s = map_of kvs (prop_name s)"
| "held (JArr xs) s =
     (case array_index s of
        Some i \<Rightarrow> if i < length xs then Some (xs ! i) else None
      | None \<Rightarrow> None)"
| "held v s = None"

fun put_own :: "jsval \<Rightarrow> segment \<Rightarrow> jsval \<Rightarrow> jsval" where
  "put_own (JObj kvs) s c = JObj (AList.update (prop_name s) c kvs)"
| "put_own (JArr xs) s c = (case array_index s of Some i \<Rightarrow> JArr (xs[i := c]) | None \<Rightarrow> JArr xs)"
| "put_own v s c = v"

fun write_back :: "jsval \<Rightarrow> segment list \<Rightarrow> jsval \<Rightarrow> jsval" where
  "write_back root [] new = new"
| "write_back root (s # ss) new =
     (case held root s of
        None \<Rightarrow> root
      | Some child \<Rightarrow> put_own root s (write_back child ss new))"

subsection \<open>\<^verbatim>\<open>updateJsonAtPath\<close>\<close>

definition update_failed :: js_error where
  "update_failed = Error ''Failed to update JSON at path''"

text \<open>
  The value-level core: the document after \<^verbatim>\<open>current[lastKey] = newValue\<close> at the end
  of a non-empty path, or the exception that came first. The empty path never gets
  here: \<open>updateJsonAtPath\<close> returns before.
\<close>

definition assign_at :: "runtime \<Rightarrow> jsval \<Rightarrow> segment list \<Rightarrow> jsval \<Rightarrow> js_error + jsval" where
  "assign_at rt json p newValue =
     (case navigate rt json (butlast p) of
        Inl e \<Rightarrow> Inl e
      | Inr current \<Rightarrow>
          (case js_set rt current (last p) newValue of
             Inl e \<Rightarrow> Inl e
           | Inr current' \<Rightarrow> Inr (write_back json (butlast p) current')))"

text \<open>Every exception inside the \<^verbatim>\<open>try\<close> is replaced by the function's own error.\<close>

definition or_update_failed :: "js_error + 'a \<Rightarrow> js_error + 'a" where
  "or_update_failed r = (case r of Inl e \<Rightarrow> Inl update_failed | Inr x \<Rightarrow> Inr x)"

definition updateJsonAtPath ::
  "runtime \<Rightarrow> string \<Rightarrow> segment list option \<Rightarrow> jsval \<Rightarrow> js_error + string option" where
  "updateJsonAtPath rt jsonString path newValue =
     (case JSON_parse rt jsonString of
        None \<Rightarrow> Inl update_failed
      | Some json \<Rightarrow>
          (case path of
             None \<Rightarrow> or_update_failed (JSON_stringify rt newValue)
           | Some p \<Rightarrow>
               if length p = 0 then or_update_failed (JSON_stringify rt newValue)
               else (case assign_at rt json p newValue of
                       Inl e \<Rightarrow> Inl update_failed
                     | Inr json' \<Rightarrow> or_update_failed (JSON_stringify rt json'))))"

subsection \<open>\<^verbatim>\<open>jsonPathToString\<close>\<close>

text \<open>The arrow function mapped over the path: a number as it is, a string in quotes.\<close>

fun segment_text :: "segment \<Rightarrow> string" where
  "segment_text (Idx n) = show_int n"
| "segment_text (Key k) = [CHR 0x22] @ k @ [CHR 0x22]"

definition jsonPathToString :: "segment list option \<Rightarrow> string" where
  "jsonPathToString path =
     (case path of
        None \<Rightarrow> ''$''
      | Some p \<Rightarrow>
          if length p = 0 then ''$''
          else (let segments = map segment_text p
                in ''$['' @ join '']['' segments @ '']''))"

subsection \<open>\<^verbatim>\<open>normalizeNodeData\<close>\<close>

text \<open>
  Modelled from the spec: the row type \<^verbatim>\<open>NodeData["text"]\<close> is declared in
  \<^verbatim>\<open>types/graph\<close>, which is not among the sources. A row is a labeled child field: a
  key (possibly \<^verbatim>\<open>null\<close>), a scalar value and the name of the value's type.
\<close>

datatype row_value = VStr string | VNum int | VBool bool | VNull

record NodeRow =
  row_key :: "string option"
  row_value :: row_value
  row_type :: string

record NodeData =
  node_text :: "NodeRow list"
  node_path :: "segment list option"

fun js_of :: "row_value \<Rightarrow> jsval" where
  "js_of (VStr s) = JStr s"
| "js_of (VNum n) = JNum n"
| "js_of (VBool b) = JBool b"
| "js_of VNull = JNull"

text \<open>The text a template literal makes of a scalar.\<close>

fun template_text :: "row_value \<Rightarrow> string" where
  "template_text (VStr s) = s"
| "template_text (VNum n) = show_int n"
| "template_text (VBool b) = (if b then ''true'' else ''false'')"
| "template_text VNull = ''null''"

text \<open>A key is truthy when it is a string other than the empty one.\<close>

definition truthy_key :: "string option \<Rightarrow> bool" where
  "truthy_key k = (case k of None \<Rightarrow> False | Some s \<Rightarrow> s \<noteq> [])"

text \<open>
  One round of the \<^verbatim>\<open>forEach\<close>: the object \<^verbatim>\<open>obj\<close> after the row, or the exception of
  the assignment \<^verbatim>\<open>obj[row.key] = row.value\<close>.
\<close>

definition add_row ::
  "runtime \<Rightarrow> (string \<times> jsval) list \<Rightarrow> NodeRow \<Rightarrow> js_error + (string \<times> jsval) list" where
  "add_row rt obj row =
     (if row_type row \<noteq> ''array'' \<and> row_type row \<noteq> ''object''
      then (if truthy_key (row_key row)
            then obj_put rt obj (the (row_key row)) (js_of (row_value row))
            else Inr obj)
      else Inr obj)"

fun forEach_row ::
  "runtime \<Rightarrow> (string \<times> jsval) list \<Rightarrow> NodeRow list \<Rightarrow> js_error + (string \<times> jsval) list" where
  "forEach_row rt obj [] = Inr obj"
| "forEach_row rt obj (row # rows) =
     (case add_row rt obj row of Inl e \<Rightarrow> Inl e | Inr obj' \<Rightarrow> forEach_row rt obj' rows)"

text \<open>Nothing catches here: an exception leaves the function.\<close>

definition normalizeNodeData :: "runtime \<Rightarrow> NodeRow list option \<Rightarrow> js_error + string option" where
  "normalizeNodeData rt nodeRows =
     (case nodeRows of
        None \<Rightarrow> Inr (Some ''{}'')
      | Some rows \<Rightarrow>
          if length rows = 0 then Inr (Some ''{}'')
          else if length rows = 1 \<and> \<not> truthy_key (row_key (rows ! 0))
            then Inr (Some (template_text (row_value (rows ! 0))))
          else (case forEach_row rt [] rows of
                  Inl e \<Rightarrow> Inl e
                | Inr obj \<Rightarrow> JSON_stringify rt (JObj obj)))"

subsection \<open>The component: state and handlers\<close>

text \<open>
  The state the handlers read and write: the selected node of the graph store, the
  JSON text \<^verbatim>\<open>useJson.getState().getJson()\<close> returns, the texts handed to
  \<^verbatim>\<open>setContents\<close> (latest first), the two \<^verbatim>\<open>useState\<close> cells, and the toasts shown
  (latest first). \<^verbatim>\<open>editValue\<close> is typed as a string, but \<^verbatim>\<open>getFullNodeValue\<close> can hand
  it \<^verbatim>\<open>undefined\<close> (\<open>None\<close>).
\<close>

datatype toast = ToastSuccess string | ToastError string

record modal_state =
  opened :: bool
  selectedNode :: "NodeData option"
  json_store :: string
  contents_set :: "string option list"
  isEditing :: bool
  editValue :: "string option"
  toasts :: "toast list"

text \<open>\<^verbatim>\<open>nodeData?.path\<close>\<close>

definition selected_path :: "modal_state \<Rightarrow> segment list option" where
  "selected_path st = (case selectedNode st of None \<Rightarrow> None | Some nd \<Rightarrow> node_path nd)"

text \<open>The effect that runs when the modal opens or the selection changes.\<close>

definition selection_effect :: "runtime \<Rightarrow> modal_state \<Rightarrow> modal_state" where
  "selection_effect rt st =
     (case selectedNode st of
        None \<Rightarrow> st
      | Some nd \<Rightarrow>
          if opened st
          then st\<lparr>editValue := getFullNodeValue rt (json_store st) (node_path nd),
                  isEditing := False\<rparr>
          else st)"

definition handleEdit :: "modal_state \<Rightarrow> modal_state" where
  "handleEdit st = st\<lparr>isEditing := True\<rparr>"

definition handleCancel :: "runtime \<Rightarrow> modal_state \<Rightarrow> modal_state" where
  "handleCancel rt st =
     (let currentJson = json_store st;
          fullValue = getFullNodeValue rt currentJson (selected_path st)
      in st\<lparr>editValue := fullValue, isEditing := False\<rparr>)"

text \<open>
  \<^verbatim>\<open>JSON.parse(editValue)\<close>, with the fallback of the inner \<^verbatim>\<open>catch\<close>: the buffer itself.
  An \<^verbatim>\<open>undefined\<close> buffer is parsed as the text \<^verbatim>\<open>undefined\<close>.
\<close>

definition parsed_or_raw :: "runtime \<Rightarrow> string option \<Rightarrow> jsval" where
  "parsed_or_raw rt ev =
     (case JSON_parse rt (case ev of None \<Rightarrow> ''undefined'' | Some t \<Rightarrow> t) of
        Some v \<Rightarrow> v
      | None \<Rightarrow> (case ev of None \<Rightarrow> JUndefined | Some t \<Rightarrow> JStr t))"

text \<open>The message of the toast: \<^verbatim>\<open>error.message || "Failed to update node"\<close>.\<close>

definition error_message :: "runtime \<Rightarrow> js_error \<Rightarrow> string" where
  "error_message rt e =
     (let message = (case e of Error msg \<Rightarrow> msg | _ \<Rightarrow> ErrorText rt e)
      in if message = [] then ''Failed to update node'' else message)"

text \<open>
  The outer \<^verbatim>\<open>try\<close> holds two calls that can throw: \<open>updateJsonAtPath\<close>, before anything
  is written, and \<^verbatim>\<open>JSON.stringify(newValue, null, 2)\<close>, after \<^verbatim>\<open>setContents\<close>.
\<close>

definition handleSave :: "runtime \<Rightarrow> modal_state \<Rightarrow> modal_state" where
  "handleSave rt st =
     (let newValue = parsed_or_raw rt (editValue st);
          currentJson = json_store st
      in case updateJsonAtPath rt currentJson (selected_path st) newValue of
           Inl e \<Rightarrow> st\<lparr>toasts := ToastError (error_message rt e) # toasts st\<rparr>
         | Inr updatedJson \<Rightarrow>
             (case JSON_stringify rt newValue of
                Inl e \<Rightarrow>
                  st\<lparr>contents_set := updatedJson # contents_set st,
                     toasts := ToastError (error_message rt e) # toasts st\<rparr>
              | Inr formatted \<Rightarrow>
                  st\<lparr>contents_set := updatedJson # contents_set st,
                     editValue := formatted,
                     toasts := ToastSuccess ''Node updated successfully!'' # toasts st,
                     isEditing := False\<rparr>))"

subsection \<open>A sample runtime\<close>

text \<open>
  To run the functions on concrete documents: a runtime that knows the parse of the
  texts listed here and takes every other text as malformed; accepts a natural number
  as an array length; has, of the built-in prototypes, the constructor of every kind
  of value, the name of a function as a read-only member, and \<^verbatim>\<open>__proto__\<close> as an
  accessor with a setter; gives a function no JSON text; and builds strings of up to
  \<open>2^29 - 24\<close> code units. \<open>sample_state\<close> is the modal in edit mode on a document, a
  selected path and a buffer.
\<close>

definition sample_texts :: "(string \<times> jsval) list" where
  \<open>sample_texts =
     [(''{"a":1}'', JObj [(''a'', JNum 1)]),
      (''{"a":"xy"}'', JObj [(''a'', JStr ''xy'')]),
      (''{"a":[1,2]}'', JObj [(''a'', JArr [JNum 1, JNum 2])]),
      (''[1]'', JArr [JNum 1]),
      (''{"customer":{"name":"Ann","orders":[1,2]}}'',
         JObj [(''customer'', JObj [(''name'', JStr ''Ann''),
                                    (''orders'', JArr [JNum 1, JNum 2])])]),
      (''{\<newline>  "a": [\<newline>    1,\<newline>    2\<newline>  ]\<newline>}'',
         JObj [(''a'', JArr [JNum 1, JNum 2])]),
      (''{\<newline>  "customer": {\<newline>    "name": "Ann",\<newline>    "orders": [\<newline>      1,\<newline>      99\<newline>    ]\<newline>  }\<newline>}'',
         JObj [(''customer'', JObj [(''name'', JStr ''Ann''),
                                    (''orders'', JArr [JNum 1, JNum 99])])]),
      (''{"a":[{"y":1}]}'', JObj [(''a'', JArr [JObj [(''y'', JNum 1)]])]),
      (''{"a":null}'', JObj [(''a'', JNull)]),
      (''99'', JNum 99)]\<close>

definition sample_inherited :: "kind \<Rightarrow> string \<Rightarrow> lookup" where
  "sample_inherited k name =
     (if name = ''constructor''
      then Member (JNative (case k of
                              KObject \<Rightarrow> ''Object'' | KArray \<Rightarrow> ''Array''
                            | KString \<Rightarrow> ''String'' | KNumber \<Rightarrow> ''Number''
                            | KBoolean \<Rightarrow> ''Boolean'' | KNative f \<Rightarrow> ''Function''))
      else if name = ''name''
      then (case k of KNative f \<Rightarrow> Member (JStr f) | _ \<Rightarrow> NoMember)
      else NoMember)"

definition sample_inherited_set :: "kind \<Rightarrow> string \<Rightarrow> put_kind" where
  "sample_inherited_set k name =
     (if name = ''__proto__'' then Setter
      else if name = ''name'' then (case k of KNative f \<Rightarrow> Refused | _ \<Rightarrow> Plain)
      else Plain)"

definition sample_runtime :: runtime where
  "sample_runtime =
     \<lparr>JSON_parse = map_of sample_texts,
      ArraySetLength = (\<lambda>v. case v of JNum n \<Rightarrow> if 0 \<le> n then Some (nat n) else None
                                    | _ \<Rightarrow> None),
      Inherited = sample_inherited,
      InheritedSet = sample_inherited_set,
      NativeText = (\<lambda>f ind. None),
      MaxStringLength = 536870888,
      ErrorText = (\<lambda>e. case e of RangeError \<Rightarrow> ''Invalid string length''
                                 | _ \<Rightarrow> ''Cannot read properties of undefined'')\<rparr>"

definition sample_state :: "string \<Rightarrow> segment list \<Rightarrow> string \<Rightarrow> modal_state" where
  "sample_state doc p buf =
     \<lparr>opened = True,
      selectedNode = Some \<lparr>node_text = [], node_path = Some p\<rparr>,
      json_store = doc, contents_set = [], isEditing = True,
      editValue = Some buf, toasts = []\<rparr>"

section \<open>Notions of the specification\<close>

subsection \<open>Documents and containers\<close>

fun is_container :: "jsval \<Rightarrow> bool" where
  "is_container (JArr xs) = True"
| "is_container (JObj kvs) = True"
| "is_container v = False"

text \<open>
  A JSON value, as \<^verbatim>\<open>JSON.parse\<close> returns it: neither \<^verbatim>\<open>undefined\<close> nor an object of the
  engine occurs in it, and an array has a length the engine's arrays have.
\<close>

fun is_json :: "jsval \<Rightarrow> bool"
  and all_json :: "jsval list \<Rightarrow> bool"
  and all_json_props :: "(string \<times> jsval) list \<Rightarrow> bool"
where
  "is_json JUndefined = False"
| "is_json JNull = True"
| "is_json (JBool b) = True"
| "is_json (JNum n) = True"
| "is_json (JStr s) = True"
| "is_json (JArr xs) = (length xs \<le> 4294967295 \<and> all_json xs)"
| "is_json (JObj kvs) = all_json_props kvs"
| "is_json (JNative f) = False"
| "all_json [] = True"
| "all_json (x # xs) = (is_json x \<and> all_json xs)"
| "all_json_props [] = True"
| "all_json_props ((k, v) # kvs) = (is_json v \<and> all_json_props kvs)"

text \<open>
  The JSON value a serialised value denotes, that is, what reading the text back gives:
  a hole or \<^verbatim>\<open>undefined\<close> element of an array is \<^verbatim>\<open>null\<close>, a property whose value is
  \<^verbatim>\<open>undefined\<close> is gone.
\<close>

fun reparsed :: "jsval \<Rightarrow> jsval"
  and reparsed_elements :: "jsval list \<Rightarrow> jsval list"
  and reparsed_props :: "(string \<times> jsval) list \<Rightarrow> (string \<times> jsval) list"
where
  "reparsed JUndefined = JUndefined"
| "reparsed JNull = JNull"
| "reparsed (JBool b) = JBool b"
| "reparsed (JNum n) = JNum n"
| "reparsed (JStr s) = JStr s"
| "reparsed (JArr xs) = JArr (reparsed_elements xs)"
| "reparsed (JObj kvs) = JObj (reparsed_props kvs)"
| "reparsed (JNative f) = JNative f"
| "reparsed_elements [] = []"
| "reparsed_elements (x # xs) =
     (if x = JUndefined then JNull else reparsed x) # reparsed_elements xs"
| "reparsed_props [] = []"
| "reparsed_props ((k, v) # kvs) =
     (if v = JUndefined then reparsed_props kvs else (k, reparsed v) # reparsed_props kvs)"

text \<open>The text of the value is within the length of the engine's strings.\<close>

definition fits :: "runtime \<Rightarrow> jsval \<Rightarrow> bool" where
  "fits rt v = (case json_text rt v of None \<Rightarrow> True | Some t \<Rightarrow> length t \<le> MaxStringLength rt)"

subsection \<open>Resolution\<close>

text \<open>
  The step of \<open>resolve\<close> in the words of the specification: an object node indexed by
  a string key present in it, or an array node indexed by a valid index; anything else
  is \<open>NotFound\<close> (\<open>None\<close>).
\<close>

fun spec_child :: "jsval \<Rightarrow> segment \<Rightarrow> jsval option" where
  "spec_child (JObj kvs) (Key k) = map_of kvs k"
| "spec_child (JArr xs) (Idx n) = (if 0 \<le> n \<and> nat n < length xs then Some (xs ! nat n) else None)"
| "spec_child v s = None"

fun spec_resolve :: "jsval \<Rightarrow> segment list \<Rightarrow> jsval option" where
  "spec_resolve d [] = Some d"
| "spec_resolve d (s # ss) = (case spec_child d s of None \<Rightarrow> None | Some c \<Rightarrow> spec_resolve c ss)"

text \<open>
  Resolution by property name: a segment addresses a node by the name it is converted
  to. An object has its keys, an array its elements and its length, a string its code
  units and its length; a number, a boolean and \<^verbatim>\<open>null\<close> have nothing.
\<close>

fun own_value :: "jsval \<Rightarrow> segment \<Rightarrow> jsval option" where
  "own_value (JObj kvs) s = map_of kvs (prop_name s)"
| "own_value (JArr xs) s =
     (case array_index s of
        Some i \<Rightarrow> if i < length xs then Some (xs ! i) else None
      | None \<Rightarrow> if prop_name s = ''length'' then Some (JNum (int (length xs))) else None)"
| "own_value (JStr t) s =
     (case array_index s of
        Some i \<Rightarrow> if i < length t then Some (JStr [t ! i]) else None
      | None \<Rightarrow> if prop_name s = ''length'' then Some (JNum (int (length t))) else None)"
| "own_value v s = None"

fun resolve :: "jsval \<Rightarrow> segment list \<Rightarrow> jsval option" where
  "resolve d [] = Some d"
| "resolve d (s # ss) = (case own_value d s of None \<Rightarrow> None | Some c \<Rightarrow> resolve c ss)"

text \<open>The segments lead, by property name, to an object or an array.\<close>

definition resolves_to_container :: "jsval \<Rightarrow> segment list \<Rightarrow> bool" where
  "resolves_to_container d ss = (case resolve d ss of None \<Rightarrow> False | Some v \<Rightarrow> is_container v)"

text \<open>
  The built-in prototypes define nothing under the name, for no kind of value a
  document holds: a read of it finds no member and an assignment meets neither a
  setter nor a refusal.
\<close>

definition plain_name :: "runtime \<Rightarrow> string \<Rightarrow> bool" where
  "plain_name rt name =
     list_all (\<lambda>k. Inherited rt k name = NoMember \<and> InheritedSet rt k name = Plain)
       [KObject, KArray, KString, KNumber, KBoolean]"

definition plain_path :: "runtime \<Rightarrow> segment list \<Rightarrow> bool" where
  "plain_path rt p = list_all (\<lambda>s. plain_name rt (prop_name s)) p"

text \<open>
  The final segment addresses its parent the way the parent is built, and the
  assignment is the parent's own business: a key the object has, or a name under
  which the prototype chain lets a key be created; an index the array has, or an
  index under which the prototype chain lets the array grow.
\<close>

fun addresses :: "runtime \<Rightarrow> jsval \<Rightarrow> segment \<Rightarrow> bool" where
  "addresses rt (JObj kvs) s =
     (map_of kvs (prop_name s) \<noteq> None \<or> InheritedSet rt KObject (prop_name s) = Plain)"
| "addresses rt (JArr xs) s =
     (case array_index s of
        None \<Rightarrow> False
      | Some i \<Rightarrow> i < length xs \<or> InheritedSet rt KArray (prop_name s) = Plain)"
| "addresses rt v s = False"

text \<open>
  \<open>setAt\<close> on values: the empty path replaces the document, any other path assigns at
  its end.
\<close>

definition setAt :: "runtime \<Rightarrow> jsval \<Rightarrow> segment list \<Rightarrow> jsval \<Rightarrow> js_error + jsval" where
  "setAt rt d p v = (if p = [] then Inr v else assign_at rt d p v)"

definition settable :: "runtime \<Rightarrow> jsval \<Rightarrow> segment list \<Rightarrow> bool" where
  "settable rt d p =
     (p = [] \<or> (case resolve d (butlast p) of
                  None \<Rightarrow> False
                | Some parent \<Rightarrow> addresses rt parent (last p)))"

subsection \<open>The canonical path string\<close>

fun bracket_group :: "segment \<Rightarrow> string" where
  "bracket_group (Key k) = ''['' @ [CHR 0x22] @ k @ [CHR 0x22] @ '']''"
| "bracket_group (Idx n) = ''['' @ show_int n @ '']''"

text \<open>
  The supported key set: keys are written between double quotes without escaping, so
  a supported key holds no double quote.
\<close>

fun supported_segment :: "segment \<Rightarrow> bool" where
  "supported_segment (Key k) = (CHR 0x22 \<notin> set k)"
| "supported_segment (Idx n) = True"

definition supported_path :: "segment list \<Rightarrow> bool" where
  "supported_path p = list_all supported_segment p"

subsection \<open>The preview\<close>

text \<open>
  The rows the preview shows: with a key that is not empty, and of a type other than
  array and object.
\<close>

definition shown :: "NodeRow \<Rightarrow> bool" where
  "shown row =
     (row_key row \<noteq> None \<and> row_key row \<noteq> Some []
      \<and> row_type row \<noteq> ''array'' \<and> row_type row \<noteq> ''object'')"

definition shown_fields :: "NodeRow list \<Rightarrow> (string \<times> jsval) list" where
  "shown_fields rows = map (\<lambda>row. (the (row_key row), js_of (row_value row))) (filter shown rows)"

text \<open>No key of a shown row meets a setter or a refusal in the prototype chain.\<close>

definition plain_keys :: "runtime \<Rightarrow> NodeRow list \<Rightarrow> bool" where
  "plain_keys rt rows =
     list_all (\<lambda>row. shown row \<longrightarrow> InheritedSet rt KObject (the (row_key row)) = Plain) rows"

section \<open>Properties\<close>

subsection \<open>Numbers as text\<close>

lemma digit_cases: "d < 10 \<Longrightarrow> d \<in> {0, 1, 2, 3, 4, 5, 6, 7, 8, 9::nat}"
  by auto

lemma digit_char_props:
  assumes "d < 10"
  shows "is_digit (digit_char d)" and "digit_value (digit_char d) = d"
    and "(digit_char d = CHR ''0'') = (d = 0)"
  using digit_cases [OF assms]
  by (auto simp: digit_char_def is_digit_def digit_value_def)

lemma is_digit_not_special:
  "is_digit c \<Longrightarrow> c \<noteq> CHR 0x22 \<and> c \<noteq> CHR '']'' \<and> c \<noteq> CHR ''-''"
  by (auto simp: is_digit_def)

lemma show_nat_digits: "show_nat n \<noteq> [] \<and> list_all is_digit (show_nat n)"
proof (induction n rule: show_nat.induct)
  case (1 n)
  show ?case
  proof (cases "n < 10")
    case True
    then show ?thesis by (subst (1 2) show_nat.simps) (simp add: digit_char_props)
  next
    case False
    then have "n mod 10 < 10" by simp
    with False 1 show ?thesis by (subst (1 2) show_nat.simps) (simp add: digit_char_props)
  qed
qed

lemma numeral_value_show_nat: "numeral_value (show_nat n) = Some n"
proof (induction n rule: show_nat.induct)
  case (1 n)
  show ?case
  proof (cases "n < 10")
    case True
    have "show_nat n = [digit_char n]" using True by (subst show_nat.simps) simp
    then show ?thesis using True digit_char_props [of n]
      by (auto simp: numeral_value_def)
  next
    case False
    let ?h = "show_nat (n div 10)"
    have eq: "show_nat n = ?h @ [digit_char (n mod 10)]"
      using False by (subst show_nat.simps) simp
    have ih: "numeral_value ?h = Some (n div 10)" using 1 False by simp
    have d: "n mod 10 < 10" by simp
    have ne: "?h \<noteq> []" and dg: "list_all is_digit ?h"
      and lead: "?h = ''0'' \<or> hd ?h \<noteq> CHR ''0''"
      and val: "foldl (\<lambda>a c. 10 * a + digit_value c) 0 ?h = n div 10"
      using ih by (auto simp: numeral_value_def split: if_splits)
    have "?h \<noteq> ''0''"
    proof
      assume "?h = ''0''"
      with val have "n div 10 = 0" by (simp add: digit_value_def)
      with False show False by simp
    qed
    with lead have h0: "hd ?h \<noteq> CHR ''0''" by simp
    have "hd (show_nat n) \<noteq> CHR ''0''" using eq ne h0 by simp
    moreover have "list_all is_digit (show_nat n)" using show_nat_digits by simp
    moreover have "show_nat n \<noteq> []" using show_nat_digits by simp
    moreover have "foldl (\<lambda>a c. 10 * a + digit_value c) 0 (show_nat n) = n"
      using eq val digit_char_props(2) [OF d] by simp
    ultimately show ?thesis by (simp add: numeral_value_def)
  qed
qed

lemma show_nat_inj: "show_nat n = show_nat m \<Longrightarrow> n = m"
  by (metis numeral_value_show_nat option.inject)

lemma canonical_index_show_nat:
  "canonical_index (show_nat n) = (if n < 4294967295 then Some n else None)"
  by (simp add: canonical_index_def numeral_value_show_nat)

lemma show_int_nonempty: "show_int n \<noteq> []"
  using show_nat_digits by (simp add: show_int_def)

lemma show_int_chars: "c \<in> set (show_int n) \<Longrightarrow> c \<noteq> CHR 0x22 \<and> c \<noteq> CHR '']''"
proof -
  assume c: "c \<in> set (show_int n)"
  have "\<And>m. c \<in> set (show_nat m) \<Longrightarrow> is_digit c"
    using show_nat_digits by (auto simp: list_all_iff)
  with c have "is_digit c \<or> c = CHR ''-''" by (auto simp: show_int_def split: if_splits)
  then show ?thesis using is_digit_not_special by auto
qed

lemma show_int_inj: "show_int n = show_int m \<Longrightarrow> n = m"
proof -
  assume e: "show_int n = show_int m"
  have hd_digit: "\<And>k. hd (show_nat k) \<noteq> CHR ''-''"
  proof -
    fix k
    have "hd (show_nat k) \<in> set (show_nat k)" using show_nat_digits by simp
    moreover have "\<forall>x\<in>set (show_nat k). is_digit x"
      using show_nat_digits [of k] by (simp add: list_all_iff)
    ultimately have "is_digit (hd (show_nat k))" by blast
    then show "hd (show_nat k) \<noteq> CHR ''-''" using is_digit_not_special by blast
  qed
  consider "n < 0" "m < 0" | "0 \<le> n" "0 \<le> m" | "n < 0" "0 \<le> m" | "0 \<le> n" "m < 0"
    by linarith
  then show ?thesis
  proof cases
    case 1
    with e have "show_nat (nat (- n)) = show_nat (nat (- m))" by (simp add: show_int_def)
    then have "nat (- n) = nat (- m)" by (rule show_nat_inj)
    with 1 show ?thesis by simp
  next
    case 2
    with e have "show_nat (nat n) = show_nat (nat m)" by (simp add: show_int_def)
    then have "nat n = nat m" by (rule show_nat_inj)
    with 2 show ?thesis by simp
  next
    case 3
    with e have "CHR ''-'' # show_nat (nat (- n)) = show_nat (nat m)" by (simp add: show_int_def)
    then have "hd (show_nat (nat m)) = CHR ''-''" by (metis list.sel(1))
    with hd_digit show ?thesis by blast
  next
    case 4
    with e have "show_nat (nat n) = CHR ''-'' # show_nat (nat (- m))" by (simp add: show_int_def)
    then have "hd (show_nat (nat n)) = CHR ''-''" by (metis list.sel(1))
    with hd_digit show ?thesis by blast
  qed
qed

lemma array_index_Idx:
  "0 \<le> n \<Longrightarrow> array_index (Idx n) = (if n < 4294967295 then Some (nat n) else None)"
  by (simp add: array_index_def show_int_def canonical_index_show_nat) linarith

lemma array_index_Idx_neg: "n < 0 \<Longrightarrow> array_index (Idx n) = None"
  by (simp add: array_index_def show_int_def canonical_index_def numeral_value_def is_digit_def)

subsection \<open>The path string\<close>

lemma join_brackets:
  "''['' @ join '']['' (map f (s # ss)) @ '']'' = concat (map (\<lambda>x. ''['' @ f x @ '']'') (s # ss))"
  by (induction ss arbitrary: s) auto

lemma bracket_group_text: "''['' @ segment_text x @ '']'' = bracket_group x"
  by (cases x) simp_all

lemma jsonPathToString_groups:
  "jsonPathToString (Some p) = ''$'' @ concat (map bracket_group p)"
proof (cases p)
  case Nil
  then show ?thesis by (simp add: jsonPathToString_def)
next
  case (Cons s ss)
  have "jsonPathToString (Some (s # ss)) = ''$'' @ (''['' @ join '']['' (map segment_text (s # ss)) @ '']'')"
    by (simp add: jsonPathToString_def Let_def)
  also have "\<dots> = ''$'' @ concat (map (\<lambda>x. ''['' @ segment_text x @ '']'') (s # ss))"
    by (simp only: join_brackets)
  also have "\<dots> = ''$'' @ concat (map bracket_group (s # ss))"
    by (simp only: bracket_group_text)
  finally show ?thesis using Cons by simp
qed

text \<open>A text without the delimiter is determined by what follows up to the delimiter.\<close>

lemma delimited_unique:
  "x \<notin> set xs \<Longrightarrow> x \<notin> set ys \<Longrightarrow> xs @ x # r = ys @ x # r' \<Longrightarrow> xs = ys \<and> r = r'"
proof (induction xs arbitrary: ys)
  case Nil
  then show ?case by (cases ys) auto
next
  case (Cons a xs)
  then show ?case by (cases ys) auto
qed

lemma number_not_quoted:
  "show_int n @ r \<noteq> CHR 0x22 # r'"
proof -
  obtain c cs where e: "show_int n = c # cs"
    using show_int_nonempty [of n] by (cases "show_int n") auto
  then have "c \<in> set (show_int n)" by simp
  then have "c \<noteq> CHR 0x22" using show_int_chars by blast
  with e show ?thesis by simp
qed

lemma bracket_group_unique:
  assumes "supported_segment a" "supported_segment b"
    and "bracket_group a @ r = bracket_group b @ r'"
  shows "a = b \<and> r = r'"
proof (cases a)
  case a: (Key k)
  show ?thesis
  proof (cases b)
    case b: (Key k')
    have e: "k @ CHR 0x22 # (CHR '']'' # r) = k' @ CHR 0x22 # (CHR '']'' # r')"
      using assms(3) a b by simp
    have "CHR 0x22 \<notin> set k" "CHR 0x22 \<notin> set k'" using assms(1,2) a b by simp_all
    then have "k = k' \<and> CHR '']'' # r = CHR '']'' # r'"
      using e by (rule delimited_unique)
    then show ?thesis using a b by simp
  next
    case b: (Idx n)
    have "show_int n @ (CHR '']'' # r') = CHR 0x22 # (k @ CHR 0x22 # CHR '']'' # r)"
      using assms(3) a b by simp
    then show ?thesis using number_not_quoted by blast
  qed
next
  case a: (Idx n)
  show ?thesis
  proof (cases b)
    case b: (Key k)
    have "show_int n @ (CHR '']'' # r) = CHR 0x22 # (k @ CHR 0x22 # CHR '']'' # r')"
      using assms(3) a b by simp
    then show ?thesis using number_not_quoted by blast
  next
    case b: (Idx m)
    have e: "show_int n @ CHR '']'' # r = show_int m @ CHR '']'' # r'"
      using assms(3) a b by simp
    have "CHR '']'' \<notin> set (show_int n)" "CHR '']'' \<notin> set (show_int m)"
      using show_int_chars by blast+
    then have "show_int n = show_int m \<and> r = r'" using e by (rule delimited_unique)
    then show ?thesis using a b show_int_inj by simp
  qed
qed

lemma bracket_group_nonempty: "bracket_group a \<noteq> []"
  by (cases a) simp_all

lemma groups_inj:
  "list_all supported_segment p \<Longrightarrow> list_all supported_segment q \<Longrightarrow>
   concat (map bracket_group p) = concat (map bracket_group q) \<Longrightarrow> p = q"
proof (induction p arbitrary: q)
  case Nil
  then show ?case using bracket_group_nonempty by (cases q) auto
next
  case (Cons a p)
  show ?case
  proof (cases q)
    case Nil
    with Cons.prems show ?thesis using bracket_group_nonempty by auto
  next
    case (Cons b q')
    with Cons.prems have "bracket_group a @ concat (map bracket_group p)
        = bracket_group b @ concat (map bracket_group q')"
      and sa: "supported_segment a" and sb: "supported_segment b"
      and sp: "list_all supported_segment p" and sq: "list_all supported_segment q'" by simp_all
    then have "a = b \<and> concat (map bracket_group p) = concat (map bracket_group q')"
      using bracket_group_unique by blast
    then show ?thesis using Cons.IH [OF sp sq] Cons by simp
  qed
qed

lemma format_example:
  \<open>jsonPathToString (Some [Key ''customer'', Key ''orders'', Idx 1]) = ''$["customer"]["orders"][1]''\<close>
  by code_simp

text \<open>
  C6. The empty path is rendered \<^verbatim>\<open>$\<close>; every other path is \<^verbatim>\<open>$\<close> followed by one bracket
  group per segment, in order and with nothing between the groups: a string segment
  as \<^verbatim>\<open>["segment"]\<close>, an integer segment as \<^verbatim>\<open>[N]\<close> with the decimal text of \<open>N\<close>. The path
  \<^verbatim>\<open>("customer", "orders", 1)\<close> is rendered \<^verbatim>\<open>$["customer"]["orders"][1]\<close>.
\<close>

theorem format_renders_bracket_groups:
  \<open>jsonPathToString None = ''$'' \<and>
   jsonPathToString (Some []) = ''$'' \<and>
   jsonPathToString (Some p) = ''$'' @ concat (map bracket_group p) \<and>
   bracket_group (Key k) = ''["'' @ k @ ''"]'' \<and>
   bracket_group (Idx n) = ''['' @ show_int n @ '']'' \<and>
   jsonPathToString (Some [Key ''customer'', Key ''orders'', Idx 1]) = ''$["customer"]["orders"][1]''\<close>
  using jsonPathToString_groups [of p] format_example
  by (simp add: jsonPathToString_def)

text \<open>
  Without the restriction to supported keys two paths can share their text: a key may
  hold the characters that close one group and open the next.
\<close>

lemma unsupported_keys_collide:
  \<open>jsonPathToString (Some [Key ''a"]["b'']) = jsonPathToString (Some [Key ''a'', Key ''b''])\<close>
  by code_simp

text \<open>
  C7. \<open>jsonPathToString\<close> is a function, so a path has one text; and over the supported
  keys (no double quote in a key) two different paths never have the same text.
\<close>

theorem format_injective:
  assumes "supported_path p" and "supported_path q" and "p \<noteq> q"
  shows "jsonPathToString (Some p) \<noteq> jsonPathToString (Some q)"
proof
  assume "jsonPathToString (Some p) = jsonPathToString (Some q)"
  then have "concat (map bracket_group p) = concat (map bracket_group q)"
    by (simp add: jsonPathToString_groups)
  with assms(1,2) have "p = q" unfolding supported_path_def by (rule groups_inj)
  with assms(3) show False by simp
qed

theorem format_injective_witness:
  \<open>supported_path [Key ''customer'', Idx 0] \<and> supported_path [Key ''customer'', Key ''0'']
   \<and> [Key ''customer'', Idx 0] \<noteq> [Key ''customer'', Key ''0'']
   \<and> jsonPathToString (Some [Key ''customer'', Idx 0]) = ''$["customer"][0]''
   \<and> jsonPathToString (Some [Key ''customer'', Key ''0'']) = ''$["customer"]["0"]''
   \<and> jsonPathToString (Some [Key ''customer'', Idx 0]) \<noteq> jsonPathToString (Some [Key ''customer'', Key ''0''])\<close>
proof -
  have a: "supported_path [Key ''customer'', Idx 0]" by (simp add: supported_path_def)
  have b: "supported_path [Key ''customer'', Key ''0'']" by (simp add: supported_path_def)
  have c: "[Key ''customer'', Idx 0] \<noteq> [Key ''customer'', Key ''0'']" by simp
  have d: \<open>jsonPathToString (Some [Key ''customer'', Idx 0]) = ''$["customer"][0]''\<close> by code_simp
  have e: \<open>jsonPathToString (Some [Key ''customer'', Key ''0'']) = ''$["customer"]["0"]''\<close> by code_simp
  from a b c d e format_injective [OF a b c] show ?thesis by blast
qed

subsection \<open>The sample runtime\<close>

lemma sample_parse:
  \<open>JSON_parse sample_runtime ''{"a":1}'' = Some (JObj [(''a'', JNum 1)])\<close>
  \<open>JSON_parse sample_runtime ''{"a":"xy"}'' = Some (JObj [(''a'', JStr ''xy'')])\<close>
  \<open>JSON_parse sample_runtime ''{"a":[1,2]}'' = Some (JObj [(''a'', JArr [JNum 1, JNum 2])])\<close>
  \<open>JSON_parse sample_runtime ''[1]'' = Some (JArr [JNum 1])\<close>
  \<open>JSON_parse sample_runtime ''{"customer":{"name":"Ann","orders":[1,2]}}'' =
     Some (JObj [(''customer'', JObj [(''name'', JStr ''Ann''),
                                      (''orders'', JArr [JNum 1, JNum 2])])])\<close>
  \<open>JSON_parse sample_runtime ''{\<newline>  "a": [\<newline>    1,\<newline>    2\<newline>  ]\<newline>}'' =
     Some (JObj [(''a'', JArr [JNum 1, JNum 2])])\<close>
  \<open>JSON_parse sample_runtime ''{\<newline>  "customer": {\<newline>    "name": "Ann",\<newline>    "orders": [\<newline>      1,\<newline>      99\<newline>    ]\<newline>  }\<newline>}'' =
     Some (JObj [(''customer'', JObj [(''name'', JStr ''Ann''),
                                      (''orders'', JArr [JNum 1, JNum 99])])])\<close>
  \<open>JSON_parse sample_runtime ''99'' = Some (JNum 99)\<close>
  \<open>JSON_parse sample_runtime ''not json'' = None\<close>
  \<open>JSON_parse sample_runtime ''{"a":[{"y":1}]}'' = Some (JObj [(''a'', JArr [JObj [(''y'', JNum 1)]])])\<close>
  \<open>JSON_parse sample_runtime ''{"a":null}'' = Some (JObj [(''a'', JNull)])\<close>
  by (simp_all add: sample_runtime_def sample_texts_def)

lemma array_index_samples:
  "array_index (Idx 0) = Some 0" "array_index (Idx 1) = Some 1" "array_index (Idx 3) = Some 3"
  "array_index (Key ''0'') = Some 0"
  "array_index (Key ''a'') = None" "array_index (Key ''b'') = None" "array_index (Key ''c'') = None"
  "array_index (Key ''foo'') = None" "array_index (Key ''x'') = None" "array_index (Key ''y'') = None"
  "array_index (Key ''missing'') = None" "array_index (Key ''name'') = None"
  "array_index (Key ''customer'') = None" "array_index (Key ''orders'') = None"
  "array_index (Key ''constructor'') = None" "array_index (Key ''__proto__'') = None"
  by (simp_all add: array_index_Idx)
     (simp_all add: array_index_def canonical_index_def numeral_value_def is_digit_def
        digit_value_def)

lemma array_index_limit:
  "array_index (Idx 4294967294) = Some 4294967294" "array_index (Idx 4294967295) = None"
  by (simp_all add: array_index_Idx)

lemma show_int_symbols: "list_all (\<lambda>c. is_digit c \<or> c = CHR ''-'') (show_int n)"
proof -
  have "list_all is_digit (show_nat m)" for m using show_nat_digits by simp
  then have "list_all (\<lambda>c. is_digit c \<or> c = CHR ''-'') (show_nat m)" for m
    by (simp add: list_all_iff)
  then show ?thesis by (simp add: show_int_def)
qed

lemma show_int_not_a_word:
  "show_int n \<noteq> ''length''" "show_int n \<noteq> ''__proto__''" "show_int n \<noteq> ''name''"
  "show_int n \<noteq> ''constructor''"
  using show_int_symbols [of n] by (auto simp: is_digit_def)

lemma sample_inherits:
  "Inherited sample_runtime = sample_inherited"
  "InheritedSet sample_runtime = sample_inherited_set"
  "MaxStringLength sample_runtime = 536870888"
  "NativeText sample_runtime f ind = None"
  by (simp_all add: sample_runtime_def)

lemma sample_plain:
  "plain_name sample_runtime ''a''" "plain_name sample_runtime ''b''"
  "plain_name sample_runtime ''c''" "plain_name sample_runtime ''x''"
  "plain_name sample_runtime ''y''" "plain_name sample_runtime ''foo''"
  "plain_name sample_runtime ''missing''" "plain_name sample_runtime ''0''"
  "plain_name sample_runtime ''1''" "plain_name sample_runtime ''3''"
  "plain_name sample_runtime ''customer''" "plain_name sample_runtime ''orders''"
  by (simp_all add: plain_name_def sample_inherits sample_inherited_def sample_inherited_set_def)

lemma show_int_samples:
  "show_int 0 = ''0''" "show_int 1 = ''1''" "show_int 3 = ''3''"
  by code_simp+

subsection \<open>Navigation and resolution\<close>

lemma own_value_js_get: "own_value d s = Some c \<Longrightarrow> js_get rt d s = Inr c"
  by (cases d) (auto split: option.splits if_splits)

lemma resolve_navigate_own: "resolve d p = Some v \<Longrightarrow> navigate rt d p = Inr v"
proof (induction p arbitrary: d)
  case Nil
  then show ?case by simp
next
  case (Cons s p)
  then obtain c where c: "own_value d s = Some c" and r: "resolve c p = Some v"
    by (auto split: option.splits)
  from c have "js_get rt d s = Inr c" by (rule own_value_js_get)
  with Cons.IH [OF r] show ?case by simp
qed

lemma resolve_append:
  "resolve d (ks @ ks') = (case resolve d ks of None \<Rightarrow> None | Some v \<Rightarrow> resolve v ks')"
  by (induction ks arbitrary: d) (auto split: option.splits)

lemma navigate_append:
  "navigate rt d (ks @ ks') =
     (case navigate rt d ks of Inl e \<Rightarrow> Inl e | Inr v \<Rightarrow> navigate rt v ks')"
  by (induction ks arbitrary: d) (auto split: sum.splits)

lemma inherit_error: "inherit rt k name = Inl e \<Longrightarrow> e = TypeError"
  by (auto simp: inherit_def split: lookup.splits)

lemma js_get_error: "js_get rt d s = Inl e \<Longrightarrow> e = TypeError"
  by (cases d) (auto dest: inherit_error split: option.splits if_splits)

lemma navigate_error: "navigate rt d p = Inl e \<Longrightarrow> e = TypeError"
  by (induction p arbitrary: d) (auto dest: js_get_error split: sum.splits)

lemma navigate_undefined: "navigate rt JUndefined p = Inr v \<Longrightarrow> v = JUndefined"
  by (cases p) auto

lemma plain_inherit:
  assumes "plain_name rt name"
  shows "inherit rt KObject name = Inr JUndefined" "inherit rt KArray name = Inr JUndefined"
    "inherit rt KString name = Inr JUndefined" "inherit rt KNumber name = Inr JUndefined"
    "inherit rt KBoolean name = Inr JUndefined"
  using assms by (simp_all add: plain_name_def inherit_def)


lemma plain_js_get:
  assumes "plain_name rt (prop_name s)" and "is_json d"
  shows "js_get rt d s =
     (if d = JNull then Inl TypeError
      else Inr (case own_value d s of Some c \<Rightarrow> c | None \<Rightarrow> JUndefined))"
  using assms(2) plain_inherit [OF assms(1)]
  by (cases d) (auto split: option.splits)

lemma all_json_nth: "all_json xs \<Longrightarrow> i < length xs \<Longrightarrow> is_json (xs ! i)"
  by (induction xs arbitrary: i) (auto simp: nth_Cons split: nat.splits)

lemma all_json_props_map_of: "all_json_props kvs \<Longrightarrow> map_of kvs k = Some c \<Longrightarrow> is_json c"
  by (induction kvs) (auto split: if_splits)

lemma own_value_json: "is_json d \<Longrightarrow> own_value d s = Some c \<Longrightarrow> is_json c"
  by (cases d) (auto simp: all_json_nth all_json_props_map_of split: option.splits if_splits)

lemma resolve_json: "is_json d \<Longrightarrow> resolve d p = Some v \<Longrightarrow> is_json v"
proof (induction p arbitrary: d)
  case Nil
  then show ?case by simp
next
  case (Cons s p)
  then obtain c where c: "own_value d s = Some c" and r: "resolve c p = Some v"
    by (auto split: option.splits)
  from Cons.prems(1) c have "is_json c" by (rule own_value_json)
  then show ?case using r by (rule Cons.IH)
qed

lemma is_json_defined: "is_json d \<Longrightarrow> d \<noteq> JUndefined"
  by auto

lemma resolve_navigate:
  "is_json d \<Longrightarrow> plain_path rt p \<Longrightarrow>
   (resolve d p = Some v) = (navigate rt d p = Inr v \<and> v \<noteq> JUndefined)"
proof (induction p arbitrary: d)
  case Nil
  then show ?case using is_json_defined by auto
next
  case (Cons s p)
  from Cons.prems(2) have ps: "plain_name rt (prop_name s)" and pp: "plain_path rt p"
    by (simp_all add: plain_path_def)
  note g = plain_js_get [OF ps Cons.prems(1)]
  show ?case
  proof (cases "own_value d s")
    case None
    then have "js_get rt d s = Inl TypeError \<or> js_get rt d s = Inr JUndefined"
      using g by simp
    then show ?thesis using None navigate_undefined by (auto split: sum.splits)
  next
    case (Some c)
    then have j: "is_json c" using Cons.prems(1) own_value_json by blast
    have "js_get rt d s = Inr c" using Some by (rule own_value_js_get)
    then show ?thesis using Some Cons.IH [OF j pp] by simp
  qed
qed

lemma unresolved_navigate:
  assumes "is_json d" and "plain_path rt p" and "resolve d p = None"
  shows "navigate rt d p = Inl TypeError \<or> navigate rt d p = Inr JUndefined"
proof (cases "navigate rt d p")
  case (Inl e)
  then show ?thesis using navigate_error by blast
next
  case (Inr v)
  then have "v = JUndefined" using resolve_navigate [OF assms(1,2), of v] assms(3) by auto
  with Inr show ?thesis by simp
qed

lemma own_value_container:
  "own_value d s = Some c \<Longrightarrow> is_container c \<Longrightarrow> is_container d \<and> held d s = Some c"
  by (cases d) (auto split: option.splits if_splits)

lemma resolve_from_non_container:
  "\<not> is_container d \<Longrightarrow> resolve d p = Some c \<Longrightarrow> \<not> is_container c"
proof (induction p arbitrary: d)
  case Nil
  then show ?case by simp
next
  case (Cons s p)
  from Cons.prems obtain n where g: "own_value d s = Some n" and n: "resolve n p = Some c"
    by (auto split: option.splits)
  from g Cons.prems(1) have "\<not> is_container n" using own_value_container by blast
  with n show ?case using Cons.IH by blast
qed




subsection \<open>The display\<close>

lemma getFullNodeValue_navigate:
  "JSON_parse rt s = Some D \<Longrightarrow>
   getFullNodeValue rt s (Some P) =
     (case navigate rt D P of
        Inl e \<Rightarrow> Some ''{}''
      | Inr c \<Rightarrow> or_fallback (JSON_stringify rt c))"
  by (cases P) (simp_all add: getFullNodeValue_def)

lemma display_resolved:
  "JSON_parse rt s = Some D \<Longrightarrow> resolve D P = Some v \<Longrightarrow>
   getFullNodeValue rt s (Some P) = or_fallback (JSON_stringify rt v)"
  by (simp add: getFullNodeValue_navigate resolve_navigate_own)

lemma stringify_undefined: "JSON_stringify rt JUndefined = Inr None"
  by (simp add: JSON_stringify_def json_text_def)

lemma display_unresolved:
  assumes "JSON_parse rt s = Some D" and "is_json D" and "plain_path rt P"
    and "resolve D P = None"
  shows "getFullNodeValue rt s (Some P) =
     (case resolve D (butlast P) of
        None \<Rightarrow> Some ''{}''
      | Some c \<Rightarrow> if c = JNull then Some ''{}'' else None)"
proof -
  have ne: "P \<noteq> []" using assms(4) by auto
  then have P: "P = butlast P @ [last P]" by simp
  have "plain_path rt (butlast P @ [last P])" using assms(3) ne by simp
  then have pb: "plain_path rt (butlast P)" and pl: "plain_name rt (prop_name (last P))"
    by (simp_all add: plain_path_def)
  have n: "navigate rt D P =
      (case navigate rt D (butlast P) of Inl e \<Rightarrow> Inl e | Inr c \<Rightarrow> js_get rt c (last P))"
    using navigate_append [of rt D "butlast P" "[last P]"] ne by (simp split: sum.splits)
  show ?thesis
  proof (cases "resolve D (butlast P)")
    case None
    from unresolved_navigate [OF assms(2) pb None] n have "\<exists>e. navigate rt D P = Inl e"
      by auto
    then show ?thesis using None assms(1) by (auto simp: getFullNodeValue_navigate)
  next
    case (Some c)
    have o: "own_value c (last P) = None"
      using assms(4) Some resolve_append [of D "butlast P" "[last P]"] ne
      by (simp split: option.splits)
    have j: "is_json c" using assms(2) Some by (rule resolve_json)
    have "navigate rt D (butlast P) = Inr c" using Some by (rule resolve_navigate_own)
    then have "navigate rt D P = (if c = JNull then Inl TypeError else Inr JUndefined)"
      using n plain_js_get [OF pl j] o by simp
    then show ?thesis using Some assms(1)
      by (simp add: getFullNodeValue_navigate stringify_undefined or_fallback_def)
  qed
qed

subsection \<open>Assignment\<close>

lemma map_of_add_index_key:
  "canonical_index k = Some n \<Longrightarrow> map_of (add_index_key n (k, v) kvs) = (map_of kvs)(k \<mapsto> v)"
proof (induction kvs)
  case Nil
  then show ?case by simp
next
  case (Cons p ps)
  obtain k' v' where p: "p = (k', v')" by (cases p)
  show ?case
  proof (cases "canonical_index k'")
    case None
    then show ?thesis using p by (simp add: fun_eq_iff)
  next
    case (Some m)
    show ?thesis
    proof (cases "m < n")
      case True
      with Some Cons.prems have "k' \<noteq> k" by auto
      then show ?thesis using Some True Cons p by (simp add: fun_eq_iff)
    next
      case False
      then show ?thesis using Some p by (simp add: fun_eq_iff)
    qed
  qed
qed

lemma map_of_obj_set: "map_of (obj_set kvs k v) = (map_of kvs)(k \<mapsto> v)"
proof (cases "map_of kvs k")
  case None
  then show ?thesis
    by (cases "canonical_index k")
       (auto simp: obj_set_def map_of_add_index_key fun_eq_iff map_add_def split: option.splits)
next
  case (Some a)
  then show ?thesis by (simp add: obj_set_def update_conv')
qed

lemma own_value_put_own:
  "own_value d s = Some c \<Longrightarrow> is_container c \<Longrightarrow> own_value (put_own d s c') s = Some c'"
  by (cases d) (auto simp: update_conv' split: option.splits if_splits)

lemma resolve_write_back:
  "resolve d ks = Some c \<Longrightarrow> is_container c \<Longrightarrow> resolve (write_back d ks c') ks = Some c'"
proof (induction ks arbitrary: d)
  case Nil
  then show ?case by simp
next
  case (Cons s ks)
  from Cons.prems obtain n where g: "own_value d s = Some n" and n: "resolve n ks = Some c"
    by (auto split: option.splits)
  have cn: "is_container n" using n Cons.prems(2) resolve_from_non_container by blast
  then have h: "held d s = Some n" using g own_value_container by blast
  have "own_value (put_own d s (write_back n ks c')) s = Some (write_back n ks c')"
    using g cn by (rule own_value_put_own)
  moreover have "resolve (write_back n ks c') ks = Some c'"
    using n Cons.prems(2) by (rule Cons.IH)
  ultimately show ?case using h by simp
qed

lemma js_set_addressed:
  assumes "addresses rt c s"
  shows "\<exists>c'. js_set rt c s v = Inr c' \<and> own_value c' s = Some v"
proof (cases c)
  case (JArr xs)
  with assms obtain i where i: "array_index s = Some i"
    and a: "i < length xs \<or> InheritedSet rt KArray (prop_name s) = Plain"
    by (auto split: option.splits)
  show ?thesis
  proof (cases "i < length xs")
    case True
    then show ?thesis using JArr i by simp
  next
    case False
    then have "(xs @ replicate (i - length xs) JUndefined @ [v]) ! i = v"
      by (simp add: nth_append)
    then show ?thesis using JArr i False a by simp
  qed
next
  case (JObj kvs)
  with assms have "obj_put rt kvs (prop_name s) v = Inr (obj_set kvs (prop_name s) v)"
    by (auto simp: obj_put_def)
  then show ?thesis using JObj by (simp add: map_of_obj_set)
qed (use assms in simp_all)

lemma addresses_container: "addresses rt c s \<Longrightarrow> is_container c"
  by (cases c) simp_all

lemma assign_at_succeeds:
  assumes "p \<noteq> []" and "resolve d (butlast p) = Some parent" and "addresses rt parent (last p)"
  shows "\<exists>d'. assign_at rt d p v = Inr d' \<and> resolve d' p = Some v"
proof -
  obtain c' where s: "js_set rt parent (last p) v = Inr c'" and g: "own_value c' (last p) = Some v"
    using js_set_addressed [OF assms(3)] by blast
  let ?d' = "write_back d (butlast p) c'"
  have "navigate rt d (butlast p) = Inr parent" using assms(2) by (rule resolve_navigate_own)
  then have a: "assign_at rt d p v = Inr ?d'" using s by (simp add: assign_at_def)
  have "resolve ?d' (butlast p) = Some c'"
    using assms(2) addresses_container [OF assms(3)] by (rule resolve_write_back)
  then have "resolve ?d' (butlast p @ [last p]) = Some v"
    using g by (simp add: resolve_append)
  then have "resolve ?d' p = Some v" using assms(1) by simp
  with a show ?thesis by blast
qed

lemma settable_setAt:
  assumes "settable rt d p"
  shows "\<exists>d'. setAt rt d p v = Inr d' \<and> resolve d' p = Some v"
proof (cases "p = []")
  case True
  then show ?thesis by (simp add: setAt_def)
next
  case False
  with assms obtain parent where "resolve d (butlast p) = Some parent" "addresses rt parent (last p)"
    by (auto simp: settable_def split: option.splits)
  with False show ?thesis using assign_at_succeeds [of p d parent rt v] by (simp add: setAt_def)
qed

lemma updateJsonAtPath_setAt:
  "JSON_parse rt s = Some d \<Longrightarrow>
   updateJsonAtPath rt s (Some p) v =
     (case setAt rt d p v of
        Inl e \<Rightarrow> Inl update_failed
      | Inr d' \<Rightarrow> or_update_failed (JSON_stringify rt d'))"
  by (cases p) (simp_all add: updateJsonAtPath_def setAt_def)

lemma fits_stringify:
  "fits rt v \<Longrightarrow> JSON_stringify rt v = Inr (json_text rt v)"
  "\<not> fits rt v \<Longrightarrow> JSON_stringify rt v = Inl RangeError"
  by (auto simp: fits_def JSON_stringify_def split: option.splits)

subsection \<open>What the text denotes\<close>

lemma reparsed_json:
  "is_json v \<Longrightarrow> reparsed v = v"
  "all_json xs \<Longrightarrow> reparsed_elements xs = xs"
  "all_json_props kvs \<Longrightarrow> reparsed_props kvs = kvs"
  by (induction v and xs and kvs rule: reparsed_reparsed_elements_reparsed_props.induct) auto

lemma stringify_reparsed:
  "SerializeJSONProperty rt ind (reparsed v) = SerializeJSONProperty rt ind v"
  "SerializeJSONArray rt ind (reparsed_elements xs) = SerializeJSONArray rt ind xs"
  "SerializeJSONObject rt ind (reparsed_props kvs) = SerializeJSONObject rt ind kvs"
  by (induction rt ind v and rt ind xs and rt ind kvs
      rule: SerializeJSONProperty_SerializeJSONArray_SerializeJSONObject.induct)
     (auto split: option.splits)

lemma json_text_reparsed: "json_text rt (reparsed v) = json_text rt v"
  by (simp add: json_text_def stringify_reparsed)

lemma reparsed_elements_nth:
  "length (reparsed_elements xs) = length xs"
  "i < length xs \<Longrightarrow>
     reparsed_elements xs ! i = (if xs ! i = JUndefined then JNull else reparsed (xs ! i))"
  by (induction xs arbitrary: i) (auto simp: nth_Cons split: nat.splits)

lemma reparsed_props_map_of:
  "map_of kvs k = Some c \<Longrightarrow> c \<noteq> JUndefined \<Longrightarrow> map_of (reparsed_props kvs) k = Some (reparsed c)"
  by (induction kvs) (auto split: if_splits)

lemma own_value_reparsed:
  "own_value d s = Some c \<Longrightarrow> c \<noteq> JUndefined \<Longrightarrow> own_value (reparsed d) s = Some (reparsed c)"
  by (cases d)
     (auto simp: reparsed_elements_nth reparsed_props_map_of split: option.splits if_splits)

lemma resolve_undefined: "resolve JUndefined p = Some v \<Longrightarrow> v = JUndefined"
  by (cases p) auto

lemma resolve_reparsed:
  "resolve d p = Some v \<Longrightarrow> v \<noteq> JUndefined \<Longrightarrow> resolve (reparsed d) p = Some (reparsed v)"
proof (induction p arbitrary: d)
  case Nil
  then show ?case by simp
next
  case (Cons s p)
  from Cons.prems obtain n where g: "own_value d s = Some n" and n: "resolve n p = Some v"
    by (auto split: option.splits)
  have "n \<noteq> JUndefined" using n Cons.prems(2) resolve_undefined by blast
  with g have "own_value (reparsed d) s = Some (reparsed n)" by (rule own_value_reparsed)
  moreover have "resolve (reparsed n) p = Some (reparsed v)" using n Cons.prems(2) by (rule Cons.IH)
  ultimately show ?case by simp
qed



lemma json_text_defined: "is_json v \<Longrightarrow> json_text rt v \<noteq> None"
  by (cases v) (simp_all add: json_text_def)

lemma fits_display: "fits rt v \<Longrightarrow> or_fallback (JSON_stringify rt v) = json_text rt v"
  by (simp add: fits_stringify or_fallback_def)

lemma sample_fits: "json_text sample_runtime v = Some t \<Longrightarrow> length t \<le> 100 \<Longrightarrow> fits sample_runtime v"
  by (simp add: fits_def sample_inherits)

lemma sample_stringify:
  "json_text sample_runtime v = Some t \<Longrightarrow> length t \<le> 100 \<Longrightarrow>
   JSON_stringify sample_runtime v = Inr (Some t)"
  by (simp add: JSON_stringify_def sample_inherits)

subsection \<open>Resolution and the display\<close>


text \<open>
  A segment that names a member of a built-in prototype yields a value as well,
  though the document holds nothing under it: in the sample runtime the path
  \<^verbatim>\<open>["constructor", "name"]\<close> displays the name of the constructor of objects.
\<close>

lemma inherited_member_resolves:
  \<open>resolve (JObj [(''a'', JNum 1)]) [Key ''constructor'', Key ''name''] = None
   \<and> navigate sample_runtime (JObj [(''a'', JNum 1)]) [Key ''constructor'', Key ''name'']
       = Inr (JStr ''Object'')
   \<and> getFullNodeValue sample_runtime ''{"a":1}'' (Some [Key ''constructor'', Key ''name''])
       = Some ''"Object"''\<close>
proof -
  have t: \<open>json_text rt (JStr ''Object'') = Some ''"Object"''\<close> for rt by code_simp
  have s: \<open>JSON_stringify sample_runtime (JStr ''Object'') = Inr (Some ''"Object"'')\<close>
    by (rule sample_stringify [OF t]) simp
  have n: "navigate sample_runtime (JObj [(''a'', JNum 1)]) [Key ''constructor'', Key ''name'']
       = Inr (JStr ''Object'')"
    by (simp add: inherit_def sample_inherits sample_inherited_def)
  have \<open>getFullNodeValue sample_runtime ''{"a":1}'' (Some [Key ''constructor'', Key ''name''])
       = Some ''"Object"''\<close>
    using n s
    by (simp add: getFullNodeValue_navigate [OF sample_parse(1)] or_fallback_def)
  with n show ?thesis by simp
qed



text \<open>
  C4 does not hold for a path whose last segment is absent from its parent: the read
  yields \<^verbatim>\<open>undefined\<close> without an exception, \<^verbatim>\<open>JSON.stringify\<close> returns \<^verbatim>\<open>undefined\<close>, and
  that is the display value, not \<^verbatim>\<open>{}\<close>. One segment further the exception is caught
  and the display is \<^verbatim>\<open>{}\<close>.
\<close>

theorem absent_final_key_displays_undefined:
  \<open>getFullNodeValue sample_runtime ''{"a":1}'' (Some [Key ''b'']) = None
   \<and> getFullNodeValue sample_runtime ''{"a":1}'' (Some [Key ''b'', Key ''c'']) = Some ''{}''
   \<and> editValue (selection_effect sample_runtime (sample_state ''{"a":1}'' [Key ''b''] '''')) = None\<close>
proof -
  have a: \<open>getFullNodeValue sample_runtime ''{"a":1}'' (Some [Key ''b'']) = None\<close>
    by (simp add: getFullNodeValue_navigate [OF sample_parse(1)] inherit_def sample_inherits
          sample_inherited_def stringify_undefined or_fallback_def)
  have b: \<open>getFullNodeValue sample_runtime ''{"a":1}'' (Some [Key ''b'', Key ''c'']) = Some ''{}''\<close>
    by (simp add: getFullNodeValue_navigate [OF sample_parse(1)] inherit_def sample_inherits
          sample_inherited_def)
  from a b show ?thesis by (simp add: selection_effect_def sample_state_def)
qed

subsection \<open>Saving through a path that does not resolve\<close>

lemma sample_error_message: "error_message rt update_failed = ''Failed to update JSON at path''"
  by (simp add: error_message_def update_failed_def)

lemma sample_state_fields:
  "json_store (sample_state doc p buf) = doc"
  "selected_path (sample_state doc p buf) = Some p"
  "editValue (sample_state doc p buf) = Some buf"
  "toasts (sample_state doc p buf) = []"
  "contents_set (sample_state doc p buf) = []"
  "isEditing (sample_state doc p buf) = True"
  by (simp_all add: sample_state_def selected_path_def)

lemma handleSave_success:
  assumes "updateJsonAtPath rt (json_store st) (selected_path st) (parsed_or_raw rt (editValue st))
             = Inr updated"
    and "JSON_stringify rt (parsed_or_raw rt (editValue st)) = Inr formatted"
  shows "handleSave rt st =
           st\<lparr>contents_set := updated # contents_set st,
              editValue := formatted,
              toasts := ToastSuccess ''Node updated successfully!'' # toasts st,
              isEditing := False\<rparr>"
  using assms by (simp add: handleSave_def Let_def)




subsection \<open>Cancel\<close>

text \<open>
  C8. Whatever the buffer holds, and whatever the document has become since editing
  began, cancel leaves edit mode and sets the buffer from the current document at the
  selected path: when the path resolves to a value, the buffer is the JSON text of
  that value; when it does not (and no segment names a member of a built-in
  prototype), the buffer is \<^verbatim>\<open>undefined\<close> if only the last segment is absent from a
  parent that is not \<^verbatim>\<open>null\<close>, and \<^verbatim>\<open>{}\<close> otherwise. Cancel does not touch the document,
  hands nothing to \<^verbatim>\<open>setContents\<close> and shows no toast.
\<close>

theorem cancel_restores_buffer:
  assumes "JSON_parse rt d = Some D"
    and "is_json D"
    and "selected_path st = Some P"
    and "st' = handleCancel rt ((handleEdit st)\<lparr>json_store := d, editValue := buf\<rparr>)"
  shows "(resolve D P = Some v \<longrightarrow>
            editValue st' = or_fallback (JSON_stringify rt v)
            \<and> json_text rt v \<noteq> None
            \<and> (fits rt v \<longrightarrow> editValue st' = json_text rt v))
       \<and> (resolve D P = None \<and> plain_path rt P \<longrightarrow>
            editValue st' = (case resolve D (butlast P) of
                               None \<Rightarrow> Some ''{}''
                             | Some parent \<Rightarrow> if parent = JNull then Some ''{}'' else None))
       \<and> isEditing st' = False
       \<and> json_store st' = d
       \<and> contents_set st' = contents_set st
       \<and> toasts st' = toasts st
       \<and> selectedNode st' = selectedNode st
       \<and> opened st' = opened st"
proof -
  have sp: "selected_path ((handleEdit st)\<lparr>json_store := d, editValue := buf\<rparr>) = Some P"
    using assms(3) by (simp add: selected_path_def handleEdit_def)
  have e: "editValue st' = getFullNodeValue rt d (Some P)"
    using sp by (simp add: assms(4) handleCancel_def Let_def)
  have a: "editValue st' = or_fallback (JSON_stringify rt v)
            \<and> json_text rt v \<noteq> None
            \<and> (fits rt v \<longrightarrow> editValue st' = json_text rt v)"
    if r: "resolve D P = Some v"
  proof -
    have g: "getFullNodeValue rt d (Some P) = or_fallback (JSON_stringify rt v)"
      using assms(1) r by (rule display_resolved)
    have "is_json v" using assms(2) r by (rule resolve_json)
    then have "json_text rt v \<noteq> None" by (rule json_text_defined)
    with g e show ?thesis by (simp add: fits_display)
  qed
  have b: "editValue st' = (case resolve D (butlast P) of
                               None \<Rightarrow> Some ''{}''
                             | Some parent \<Rightarrow> if parent = JNull then Some ''{}'' else None)"
    if "resolve D P = None" and "plain_path rt P"
    using e display_unresolved [OF assms(1,2) that(2,1)] by simp
  have c: "isEditing st' = False \<and> json_store st' = d \<and> contents_set st' = contents_set st
       \<and> toasts st' = toasts st \<and> selectedNode st' = selectedNode st \<and> opened st' = opened st"
    by (simp add: assms(4) handleCancel_def handleEdit_def Let_def)
  from a b c show ?thesis by blast
qed

theorem cancel_restores_buffer_witness:
  \<open>JSON_parse sample_runtime ''{"a":[{"y":1}]}'' = Some (JObj [(''a'', JArr [JObj [(''y'', JNum 1)]])])
   \<and> is_json (JObj [(''a'', JArr [JObj [(''y'', JNum 1)]])])
   \<and> selected_path (sample_state ''{"a":[1,2]}'' [Key ''a'', Idx 0] ''1'') = Some [Key ''a'', Idx 0]
   \<and> resolve (JObj [(''a'', JArr [JObj [(''y'', JNum 1)]])]) [Key ''a'', Idx 0]
        = Some (JObj [(''y'', JNum 1)])
   \<and> fits sample_runtime (JObj [(''y'', JNum 1)])
   \<and> editValue (handleCancel sample_runtime
        ((handleEdit (sample_state ''{"a":[1,2]}'' [Key ''a'', Idx 0] ''1''))
           \<lparr>json_store := ''{"a":[{"y":1}]}'', editValue := Some ''edited''\<rparr>))
        = Some ''{\<newline>  "y": 1\<newline>}''
   \<and> JSON_parse sample_runtime ''{"a":1}'' = Some (JObj [(''a'', JNum 1)])
   \<and> is_json (JObj [(''a'', JNum 1)])
   \<and> selected_path (sample_state ''{"a":1}'' [Key ''b''] ''1'') = Some [Key ''b'']
   \<and> resolve (JObj [(''a'', JNum 1)]) [Key ''b''] = None
   \<and> plain_path sample_runtime [Key ''b'']
   \<and> editValue (handleCancel sample_runtime
        ((handleEdit (sample_state ''{"a":1}'' [Key ''b''] ''1''))
           \<lparr>json_store := ''{"a":1}'', editValue := Some ''edited''\<rparr>))
        = None\<close>
proof -
  let ?D = "JObj [(''a'', JArr [JObj [(''y'', JNum 1)]])]"
  let ?st = \<open>sample_state ''{"a":[1,2]}'' [Key ''a'', Idx 0] ''1''\<close>
  let ?E = "JObj [(''a'', JNum 1)]"
  let ?su = \<open>sample_state ''{"a":1}'' [Key ''b''] ''1''\<close>
  have h1: \<open>JSON_parse sample_runtime ''{"a":[{"y":1}]}'' = Some ?D\<close> by (rule sample_parse)
  have h2: "is_json ?D" by simp
  have h3: "selected_path ?st = Some [Key ''a'', Idx 0]" by (simp add: sample_state_fields)
  have r: "resolve ?D [Key ''a'', Idx 0] = Some (JObj [(''y'', JNum 1)])"
    by (simp add: array_index_samples)
  have t: \<open>json_text rt (JObj [(''y'', JNum 1)]) = Some ''{\<newline>  "y": 1\<newline>}''\<close> for rt
    by code_simp
  have f: "fits sample_runtime (JObj [(''y'', JNum 1)])" by (rule sample_fits [OF t]) simp
  note th = cancel_restores_buffer [OF h1 h2 h3 refl, where buf = "Some ''edited''"
    and v = "JObj [(''y'', JNum 1)]"]
  from th r f have \<open>editValue (handleCancel sample_runtime
        ((handleEdit ?st)\<lparr>json_store := ''{"a":[{"y":1}]}'', editValue := Some ''edited''\<rparr>))
        = json_text sample_runtime (JObj [(''y'', JNum 1)])\<close> by blast
  then have e1: \<open>editValue (handleCancel sample_runtime
        ((handleEdit ?st)\<lparr>json_store := ''{"a":[{"y":1}]}'', editValue := Some ''edited''\<rparr>))
        = Some ''{\<newline>  "y": 1\<newline>}''\<close> by (simp only: t)
  have k1: \<open>JSON_parse sample_runtime ''{"a":1}'' = Some ?E\<close> by (rule sample_parse)
  have k2: "is_json ?E" by simp
  have k3: "selected_path ?su = Some [Key ''b'']" by (simp add: sample_state_fields)
  have q: "resolve ?E [Key ''b''] = None" by simp
  have pp: "plain_path sample_runtime [Key ''b'']" by (simp add: plain_path_def sample_plain)
  note tk = cancel_restores_buffer [OF k1 k2 k3 refl, where buf = "Some ''edited''" and v = JNull]
  from tk q pp have \<open>editValue (handleCancel sample_runtime
        ((handleEdit ?su)\<lparr>json_store := ''{"a":1}'', editValue := Some ''edited''\<rparr>))
        = (case resolve ?E (butlast [Key ''b'']) of
             None \<Rightarrow> Some ''{}''
           | Some parent \<Rightarrow> if parent = JNull then Some ''{}'' else None)\<close> by blast
  then have e2: \<open>editValue (handleCancel sample_runtime
        ((handleEdit ?su)\<lparr>json_store := ''{"a":1}'', editValue := Some ''edited''\<rparr>)) = None\<close>
    by simp
  from h1 h2 h3 r f e1 k1 k2 k3 q pp e2 show ?thesis by blast
qed

subsection \<open>Write, then read\<close>

lemma json_text_JStr: "json_text rt (JStr T) = Some (QuoteJSONString T)"
  by (simp add: json_text_def)

lemma update_of_setAt:
  assumes "JSON_parse rt s = Some D" and "setAt rt D P V = Inr D'"
  shows "fits rt D' \<Longrightarrow> updateJsonAtPath rt s (Some P) V = Inr (json_text rt D')"
    and "\<not> fits rt D' \<Longrightarrow> updateJsonAtPath rt s (Some P) V = Inl update_failed"
  using assms(2)
  by (simp_all add: updateJsonAtPath_setAt [OF assms(1)] fits_stringify or_update_failed_def)

text \<open>
  C5, as the specification states it, fails on the code: with the array at
  \<^verbatim>\<open>["a"]\<close> as parent and the key \<^verbatim>\<open>"foo"\<close> as last segment, every intermediate segment
  resolves to a container and the update succeeds, but the written value is not part
  of the document produced, and reading the path back yields \<^verbatim>\<open>undefined\<close>.
\<close>

theorem write_then_read_counterexample:
  \<open>JSON_parse sample_runtime ''{"a":[1,2]}'' = Some (JObj [(''a'', JArr [JNum 1, JNum 2])])
   \<and> resolves_to_container (JObj [(''a'', JArr [JNum 1, JNum 2])]) [Key ''a'']
   \<and> spec_resolve (JObj [(''a'', JArr [JNum 1, JNum 2])]) [Key ''a'']
        = Some (JArr [JNum 1, JNum 2])
   \<and> setAt sample_runtime (JObj [(''a'', JArr [JNum 1, JNum 2])]) [Key ''a'', Key ''foo''] (JNum 1)
        = Inr (JObj [(''a'', JArr [JNum 1, JNum 2])])
   \<and> updateJsonAtPath sample_runtime ''{"a":[1,2]}'' (Some [Key ''a'', Key ''foo'']) (JNum 1)
        = Inr (Some ''{\<newline>  "a": [\<newline>    1,\<newline>    2\<newline>  ]\<newline>}'')
   \<and> resolve (JObj [(''a'', JArr [JNum 1, JNum 2])]) [Key ''a'', Key ''foo''] = None
   \<and> getFullNodeValue sample_runtime ''{\<newline>  "a": [\<newline>    1,\<newline>    2\<newline>  ]\<newline>}''
        (Some [Key ''a'', Key ''foo'']) = None
   \<and> json_text sample_runtime (JNum 1) = Some ''1''\<close>
proof -
  let ?D = "JObj [(''a'', JArr [JNum 1, JNum 2])]"
  have t: \<open>json_text rt ?D = Some ''{\<newline>  "a": [\<newline>    1,\<newline>    2\<newline>  ]\<newline>}''\<close> for rt
    by code_simp
  have f: "fits sample_runtime ?D" by (rule sample_fits [OF t]) simp
  have s: "setAt sample_runtime ?D [Key ''a'', Key ''foo''] (JNum 1) = Inr ?D"
    by (simp add: setAt_def assign_at_def array_index_samples sample_inherits
          sample_inherited_set_def)
  have u: \<open>updateJsonAtPath sample_runtime ''{"a":[1,2]}'' (Some [Key ''a'', Key ''foo'']) (JNum 1)
        = Inr (Some ''{\<newline>  "a": [\<newline>    1,\<newline>    2\<newline>  ]\<newline>}'')\<close>
    using update_of_setAt(1) [OF sample_parse(3) s f] by (simp only: t)
  have q: "resolve ?D [Key ''a'', Key ''foo''] = None" by (simp add: array_index_samples)
  have g: \<open>getFullNodeValue sample_runtime ''{\<newline>  "a": [\<newline>    1,\<newline>    2\<newline>  ]\<newline>}''
        (Some [Key ''a'', Key ''foo'']) = None\<close>
    by (simp add: getFullNodeValue_navigate [OF sample_parse(6)] array_index_samples inherit_def
          sample_inherits sample_inherited_def stringify_undefined or_fallback_def)
  have n: "json_text rt (JNum 1) = Some ''1''" for rt by code_simp
  have c: "resolves_to_container ?D [Key ''a'']" by (simp add: resolves_to_container_def)
  have sr: "spec_resolve ?D [Key ''a''] = Some (JArr [JNum 1, JNum 2])" by simp
  from sample_parse(3) c sr s u q g n show ?thesis by blast
qed

text \<open>
  Two more assignments that succeed and store nothing in the document: under a name
  for which the prototype chain has a setter, and on an array under an integer beyond
  the last array index, \<open>2^32 - 2\<close>.
\<close>

lemma setter_takes_the_value:
  \<open>plain_path sample_runtime [Key ''__proto__''] = False
   \<and> settable sample_runtime (JObj [(''a'', JNum 1)]) [Key ''__proto__''] = False
   \<and> setAt sample_runtime (JObj [(''a'', JNum 1)]) [Key ''__proto__''] (JStr ''not json'')
        = Inr (JObj [(''a'', JNum 1)])
   \<and> resolve (JObj [(''a'', JNum 1)]) [Key ''__proto__''] = None
   \<and> setAt sample_runtime (JObj [(''a'', JNum 1)]) [Key ''a'', Key ''__proto__''] (JNum 1)
        = Inr (JObj [(''a'', JNum 1)])\<close>
  by (simp add: plain_path_def plain_name_def settable_def setAt_def assign_at_def obj_put_def
        sample_inherits sample_inherited_set_def sample_inherited_def)

lemma index_beyond_the_last_array_index:
  "settable sample_runtime (JArr [JNum 1]) [Idx 4294967295] = False
   \<and> setAt sample_runtime (JArr [JNum 1]) [Idx 4294967295] (JNum 7) = Inr (JArr [JNum 1])
   \<and> resolve (JArr [JNum 1]) [Idx 4294967295] = None"
  by (simp add: settable_def setAt_def assign_at_def array_index_limit show_int_not_a_word
        sample_inherits sample_inherited_set_def)

text \<open>
  C5, amended. If the path is empty, or the segments before the last resolve to an
  object and the last segment is a key it has or a name under which the prototype
  chain lets a key be created, or they resolve to an array and the last segment is an
  index it has or an array index under which the prototype chain lets the array grow,
  then for every JSON value \<open>V\<close> the assignment succeeds and the path resolves to
  exactly \<open>V\<close> in the document produced: in the value that is serialised, in the value
  its text denotes, and through \<open>getFullNodeValue\<close> on every text the runtime parses to
  that value. \<open>updateJsonAtPath\<close> returns the text of that document if the text is
  within the length of the engine's strings, and fails otherwise.
\<close>

theorem write_then_read:
  assumes "JSON_parse rt s = Some D" and "is_json V" and "settable rt D P"
  shows "\<exists>D'. setAt rt D P V = Inr D'
           \<and> resolve D' P = Some V
           \<and> navigate rt D' P = Inr V
           \<and> json_text rt (reparsed D') = json_text rt D'
           \<and> resolve (reparsed D') P = Some V
           \<and> (fits rt D' \<longrightarrow> updateJsonAtPath rt s (Some P) V = Inr (json_text rt D'))
           \<and> (\<not> fits rt D' \<longrightarrow> updateJsonAtPath rt s (Some P) V = Inl update_failed)
           \<and> (\<forall>s'. JSON_parse rt s' = Some (reparsed D') \<longrightarrow>
                  getFullNodeValue rt s' (Some P) = or_fallback (JSON_stringify rt V))"
proof -
  obtain D' where a: "setAt rt D P V = Inr D'" and n: "resolve D' P = Some V"
    using settable_setAt [OF assms(3)] by blast
  have v: "V \<noteq> JUndefined" using assms(2) by auto
  have g: "navigate rt D' P = Inr V" using n by (rule resolve_navigate_own)
  have "resolve (reparsed D') P = Some (reparsed V)" using n v by (rule resolve_reparsed)
  then have r: "resolve (reparsed D') P = Some V" using assms(2) by (simp add: reparsed_json)
  have d: "getFullNodeValue rt s' (Some P) = or_fallback (JSON_stringify rt V)"
    if "JSON_parse rt s' = Some (reparsed D')" for s'
    using that r by (rule display_resolved)
  have u1: "updateJsonAtPath rt s (Some P) V = Inr (json_text rt D')" if "fits rt D'"
    using assms(1) a that by (rule update_of_setAt(1))
  have u2: "updateJsonAtPath rt s (Some P) V = Inl update_failed" if "\<not> fits rt D'"
    using assms(1) a that by (rule update_of_setAt(2))
  have j: "json_text rt (reparsed D') = json_text rt D'" by (rule json_text_reparsed)
  from a n g j r u1 u2 d show ?thesis by blast
qed

theorem write_then_read_witness:
  \<open>JSON_parse sample_runtime ''{"customer":{"name":"Ann","orders":[1,2]}}'' =
     Some (JObj [(''customer'', JObj [(''name'', JStr ''Ann''),
                                      (''orders'', JArr [JNum 1, JNum 2])])])
   \<and> is_json (JNum 99)
   \<and> settable sample_runtime (JObj [(''customer'', JObj [(''name'', JStr ''Ann''),
                                           (''orders'', JArr [JNum 1, JNum 2])])])
        [Key ''customer'', Key ''orders'', Idx 1]
   \<and> setAt sample_runtime (JObj [(''customer'', JObj [(''name'', JStr ''Ann''),
                                           (''orders'', JArr [JNum 1, JNum 2])])])
        [Key ''customer'', Key ''orders'', Idx 1] (JNum 99)
       = Inr (JObj [(''customer'', JObj [(''name'', JStr ''Ann''),
                                         (''orders'', JArr [JNum 1, JNum 99])])])
   \<and> fits sample_runtime (JObj [(''customer'', JObj [(''name'', JStr ''Ann''),
                                         (''orders'', JArr [JNum 1, JNum 99])])])
   \<and> updateJsonAtPath sample_runtime ''{"customer":{"name":"Ann","orders":[1,2]}}''
        (Some [Key ''customer'', Key ''orders'', Idx 1]) (JNum 99)
       = Inr (Some ''{\<newline>  "customer": {\<newline>    "name": "Ann",\<newline>    "orders": [\<newline>      1,\<newline>      99\<newline>    ]\<newline>  }\<newline>}'')
   \<and> JSON_parse sample_runtime
        ''{\<newline>  "customer": {\<newline>    "name": "Ann",\<newline>    "orders": [\<newline>      1,\<newline>      99\<newline>    ]\<newline>  }\<newline>}''
       = Some (reparsed (JObj [(''customer'', JObj [(''name'', JStr ''Ann''),
                                         (''orders'', JArr [JNum 1, JNum 99])])]))
   \<and> getFullNodeValue sample_runtime
        ''{\<newline>  "customer": {\<newline>    "name": "Ann",\<newline>    "orders": [\<newline>      1,\<newline>      99\<newline>    ]\<newline>  }\<newline>}''
        (Some [Key ''customer'', Key ''orders'', Idx 1]) = Some ''99''\<close>
proof -
  let ?D = "JObj [(''customer'', JObj [(''name'', JStr ''Ann''),
                                      (''orders'', JArr [JNum 1, JNum 2])])]"
  let ?D' = "JObj [(''customer'', JObj [(''name'', JStr ''Ann''),
                                       (''orders'', JArr [JNum 1, JNum 99])])]"
  let ?P = "[Key ''customer'', Key ''orders'', Idx 1]"
  let ?t = \<open>''{\<newline>  "customer": {\<newline>    "name": "Ann",\<newline>    "orders": [\<newline>      1,\<newline>      99\<newline>    ]\<newline>  }\<newline>}''\<close>
  have h1: \<open>JSON_parse sample_runtime ''{"customer":{"name":"Ann","orders":[1,2]}}'' = Some ?D\<close>
    by (rule sample_parse)
  have h2: "is_json (JNum 99)" by simp
  have h3: "settable sample_runtime ?D ?P" by (simp add: settable_def array_index_samples)
  have s: "setAt sample_runtime ?D ?P (JNum 99) = Inr ?D'"
    by (simp add: setAt_def assign_at_def array_index_samples)
  have t: "json_text rt ?D' = Some ?t" for rt by code_simp
  have f: "fits sample_runtime ?D'" by (rule sample_fits [OF t]) simp
  have p: "JSON_parse sample_runtime ?t = Some (reparsed ?D')" by (simp add: sample_parse)
  have t9: "json_text rt (JNum 99) = Some ''99''" for rt by code_simp
  have s9: "JSON_stringify sample_runtime (JNum 99) = Inr (Some ''99'')"
    by (rule sample_stringify [OF t9]) simp
  obtain E where e: "setAt sample_runtime ?D ?P (JNum 99) = Inr E"
      and u: \<open>fits sample_runtime E \<longrightarrow>
                updateJsonAtPath sample_runtime ''{"customer":{"name":"Ann","orders":[1,2]}}''
                  (Some ?P) (JNum 99) = Inr (json_text sample_runtime E)\<close>
      and g: "\<forall>s'. JSON_parse sample_runtime s' = Some (reparsed E) \<longrightarrow>
                getFullNodeValue sample_runtime s' (Some ?P)
                  = or_fallback (JSON_stringify sample_runtime (JNum 99))"
    using write_then_read [OF h1 h2 h3] by blast
  from e s have E: "E = ?D'" by simp
  from u f have u': \<open>updateJsonAtPath sample_runtime ''{"customer":{"name":"Ann","orders":[1,2]}}''
                  (Some ?P) (JNum 99) = Inr (Some ?t)\<close> by (simp only: E t)
  from g p have "getFullNodeValue sample_runtime ?t (Some ?P)
                  = or_fallback (JSON_stringify sample_runtime (JNum 99))"
    unfolding E by blast
  then have g': "getFullNodeValue sample_runtime ?t (Some ?P) = Some ''99''"
    by (simp add: s9 or_fallback_def)
  from h1 h2 h3 s f u' p g' show ?thesis by blast
qed

subsection \<open>Saving text that is not JSON\<close>

text \<open>
  C3, as the specification states it, fails on the code for the same parent and last
  segment: the save succeeds without an error, but the document handed to
  \<^verbatim>\<open>setContents\<close> is the old one, without the text.
\<close>

theorem unparsable_text_counterexample:
  \<open>JSON_parse sample_runtime ''not json'' = None
   \<and> JSON_parse sample_runtime ''{"a":[1,2]}'' = Some (JObj [(''a'', JArr [JNum 1, JNum 2])])
   \<and> resolves_to_container (JObj [(''a'', JArr [JNum 1, JNum 2])]) [Key ''a'']
   \<and> spec_resolve (JObj [(''a'', JArr [JNum 1, JNum 2])]) [Key ''a'']
        = Some (JArr [JNum 1, JNum 2])
   \<and> handleSave sample_runtime (sample_state ''{"a":[1,2]}'' [Key ''a'', Key ''foo''] ''not json'')
       = (sample_state ''{"a":[1,2]}'' [Key ''a'', Key ''foo''] ''not json'')
           \<lparr>contents_set := [Some ''{\<newline>  "a": [\<newline>    1,\<newline>    2\<newline>  ]\<newline>}''],
            editValue := Some ''"not json"'',
            toasts := [ToastSuccess ''Node updated successfully!''],
            isEditing := False\<rparr>
   \<and> json_text sample_runtime (JObj [(''a'', JArr [JNum 1, JNum 2])])
       = Some ''{\<newline>  "a": [\<newline>    1,\<newline>    2\<newline>  ]\<newline>}''
   \<and> navigate sample_runtime (JObj [(''a'', JArr [JNum 1, JNum 2])]) [Key ''a'', Key ''foo'']
       = Inr JUndefined\<close>
proof -
  let ?D = "JObj [(''a'', JArr [JNum 1, JNum 2])]"
  let ?st = \<open>sample_state ''{"a":[1,2]}'' [Key ''a'', Key ''foo''] ''not json''\<close>
  have t: \<open>json_text rt ?D = Some ''{\<newline>  "a": [\<newline>    1,\<newline>    2\<newline>  ]\<newline>}''\<close> for rt
    by code_simp
  have f: "fits sample_runtime ?D" by (rule sample_fits [OF t]) simp
  have s: "setAt sample_runtime ?D [Key ''a'', Key ''foo''] (JStr ''not json'') = Inr ?D"
    by (simp add: setAt_def assign_at_def array_index_samples sample_inherits
          sample_inherited_set_def)
  have q: \<open>json_text rt (JStr ''not json'') = Some ''"not json"''\<close> for rt by code_simp
  have sq: \<open>JSON_stringify sample_runtime (JStr ''not json'') = Inr (Some ''"not json"'')\<close>
    by (rule sample_stringify [OF q]) simp
  have p: "parsed_or_raw sample_runtime (Some ''not json'') = JStr ''not json''"
    by (simp add: parsed_or_raw_def sample_parse)
  have \<open>updateJsonAtPath sample_runtime ''{"a":[1,2]}'' (Some [Key ''a'', Key ''foo''])
             (JStr ''not json'') = Inr (Some ''{\<newline>  "a": [\<newline>    1,\<newline>    2\<newline>  ]\<newline>}'')\<close>
    using update_of_setAt(1) [OF sample_parse(3) s f] by (simp only: t)
  then have u: \<open>updateJsonAtPath sample_runtime (json_store ?st) (selected_path ?st)
             (parsed_or_raw sample_runtime (editValue ?st))
             = Inr (Some ''{\<newline>  "a": [\<newline>    1,\<newline>    2\<newline>  ]\<newline>}'')\<close>
    by (simp add: sample_state_fields p)
  have h: \<open>handleSave sample_runtime ?st
       = ?st\<lparr>contents_set := [Some ''{\<newline>  "a": [\<newline>    1,\<newline>    2\<newline>  ]\<newline>}''],
            editValue := Some ''"not json"'',
            toasts := [ToastSuccess ''Node updated successfully!''],
            isEditing := False\<rparr>\<close>
    using handleSave_success [OF u] sq by (simp add: sample_state_fields p)
  have c: "resolves_to_container ?D [Key ''a'']" by (simp add: resolves_to_container_def)
  have sr: "spec_resolve ?D [Key ''a''] = Some (JArr [JNum 1, JNum 2])" by simp
  have n: "navigate sample_runtime ?D [Key ''a'', Key ''foo''] = Inr JUndefined"
    by (simp add: array_index_samples inherit_def sample_inherits sample_inherited_def)
  from sample_parse(9) sample_parse(3) c sr h t n show ?thesis by blast
qed

text \<open>
  C3, amended. When the buffer does not parse and the path is empty, or its last
  segment addresses its parent as in C5 (a key of an object, or a name under which a
  key can be created; an index of an array, or an array index under which the array
  can grow), the assignment succeeds and the document produced has the raw text as a
  string at the path. If the texts of that document and of the string are within the
  length of the engine's strings, saving raises no error: the text of the document is
  handed to \<^verbatim>\<open>setContents\<close>, the buffer becomes the quoted text, and edit mode ends with
  the success toast. If the text of the document is too long, the save fails with the
  error toast and nothing else changes.
\<close>

theorem unparsable_text_saved_as_string:
  assumes "JSON_parse rt T = None" and "editValue st = Some T"
    and "JSON_parse rt (json_store st) = Some D" and "selected_path st = Some P"
    and "settable rt D P"
  shows "\<exists>D'. setAt rt D P (JStr T) = Inr D'
           \<and> resolve D' P = Some (JStr T)
           \<and> navigate rt D' P = Inr (JStr T)
           \<and> resolve (reparsed D') P = Some (JStr T)
           \<and> (fits rt D' \<and> fits rt (JStr T) \<longrightarrow>
                handleSave rt st =
                  st\<lparr>contents_set := json_text rt D' # contents_set st,
                     editValue := Some (QuoteJSONString T),
                     toasts := ToastSuccess ''Node updated successfully!'' # toasts st,
                     isEditing := False\<rparr>)
           \<and> (\<not> fits rt D' \<longrightarrow>
                handleSave rt st =
                  st\<lparr>toasts := ToastError ''Failed to update JSON at path'' # toasts st\<rparr>)"
proof -
  obtain D' where a: "setAt rt D P (JStr T) = Inr D'" and n: "resolve D' P = Some (JStr T)"
    using settable_setAt [OF assms(5)] by blast
  have g: "navigate rt D' P = Inr (JStr T)" using n by (rule resolve_navigate_own)
  have "resolve (reparsed D') P = Some (reparsed (JStr T))"
    using n by (rule resolve_reparsed) simp
  then have r: "resolve (reparsed D') P = Some (JStr T)" by simp
  have v: "parsed_or_raw rt (editValue st) = JStr T"
    using assms(1,2) by (simp add: parsed_or_raw_def)
  have ok: "handleSave rt st =
                  st\<lparr>contents_set := json_text rt D' # contents_set st,
                     editValue := Some (QuoteJSONString T),
                     toasts := ToastSuccess ''Node updated successfully!'' # toasts st,
                     isEditing := False\<rparr>"
    if f: "fits rt D'" and ft: "fits rt (JStr T)"
  proof -
    have "updateJsonAtPath rt (json_store st) (Some P) (JStr T) = Inr (json_text rt D')"
      using assms(3) a f by (rule update_of_setAt(1))
    then have u: "updateJsonAtPath rt (json_store st) (selected_path st)
                    (parsed_or_raw rt (editValue st)) = Inr (json_text rt D')"
      by (simp only: v assms(4))
    have "JSON_stringify rt (JStr T) = Inr (Some (QuoteJSONString T))"
      using ft by (simp add: fits_stringify json_text_JStr)
    then have q: "JSON_stringify rt (parsed_or_raw rt (editValue st))
                    = Inr (Some (QuoteJSONString T))"
      by (simp only: v)
    show ?thesis using u q by (rule handleSave_success)
  qed
  have bad: "handleSave rt st =
               st\<lparr>toasts := ToastError ''Failed to update JSON at path'' # toasts st\<rparr>"
    if f: "\<not> fits rt D'"
  proof -
    have "updateJsonAtPath rt (json_store st) (Some P) (JStr T) = Inl update_failed"
      using assms(3) a f by (rule update_of_setAt(2))
    then have "updateJsonAtPath rt (json_store st) (selected_path st)
                    (parsed_or_raw rt (editValue st)) = Inl update_failed"
      by (simp only: v assms(4))
    then show ?thesis by (simp add: handleSave_def Let_def sample_error_message)
  qed
  from a n g r ok bad show ?thesis by blast
qed

theorem unparsable_text_saved_witness:
  \<open>JSON_parse sample_runtime ''not json'' = None
   \<and> JSON_parse sample_runtime ''{"a":1}'' = Some (JObj [(''a'', JNum 1)])
   \<and> settable sample_runtime (JObj [(''a'', JNum 1)]) [Key ''a'']
   \<and> setAt sample_runtime (JObj [(''a'', JNum 1)]) [Key ''a''] (JStr ''not json'')
       = Inr (JObj [(''a'', JStr ''not json'')])
   \<and> fits sample_runtime (JObj [(''a'', JStr ''not json'')])
   \<and> fits sample_runtime (JStr ''not json'')
   \<and> handleSave sample_runtime (sample_state ''{"a":1}'' [Key ''a''] ''not json'')
       = (sample_state ''{"a":1}'' [Key ''a''] ''not json'')
           \<lparr>contents_set := [Some ''{\<newline>  "a": "not json"\<newline>}''],
            editValue := Some ''"not json"'',
            toasts := [ToastSuccess ''Node updated successfully!''],
            isEditing := False\<rparr>\<close>
proof -
  let ?st = \<open>sample_state ''{"a":1}'' [Key ''a''] ''not json''\<close>
  let ?D = "JObj [(''a'', JNum 1)]"
  let ?D' = "JObj [(''a'', JStr ''not json'')]"
  have h1: "JSON_parse sample_runtime ''not json'' = None" by (rule sample_parse)
  have h2: "editValue ?st = Some ''not json''" by (simp add: sample_state_fields)
  have h3: "JSON_parse sample_runtime (json_store ?st) = Some ?D"
    by (simp add: sample_state_fields sample_parse)
  have h4: "selected_path ?st = Some [Key ''a'']" by (simp add: sample_state_fields)
  have h5: "settable sample_runtime ?D [Key ''a'']" by (simp add: settable_def)
  have s: "setAt sample_runtime ?D [Key ''a''] (JStr ''not json'') = Inr ?D'"
    by (simp add: setAt_def assign_at_def obj_put_def obj_set_def)
  have t: \<open>json_text rt ?D' = Some ''{\<newline>  "a": "not json"\<newline>}''\<close> for rt
    by code_simp
  have q: \<open>QuoteJSONString ''not json'' = ''"not json"''\<close> by code_simp
  have f1: "fits sample_runtime ?D'" by (rule sample_fits [OF t]) simp
  have f2: "fits sample_runtime (JStr ''not json'')"
    by (rule sample_fits [OF json_text_JStr]) (simp add: q)
  obtain E where e: "setAt sample_runtime ?D [Key ''a''] (JStr ''not json'') = Inr E"
    and k: "fits sample_runtime E \<and> fits sample_runtime (JStr ''not json'') \<longrightarrow>
                handleSave sample_runtime ?st =
                  ?st\<lparr>contents_set := json_text sample_runtime E # contents_set ?st,
                     editValue := Some (QuoteJSONString ''not json''),
                     toasts := ToastSuccess ''Node updated successfully!'' # toasts ?st,
                     isEditing := False\<rparr>"
    using unparsable_text_saved_as_string [OF h1 h2 h3 h4 h5] by blast
  from e s have E: "E = ?D'" by simp
  from k f1 f2 have \<open>handleSave sample_runtime ?st =
                  ?st\<lparr>contents_set := [Some ''{\<newline>  "a": "not json"\<newline>}''],
                     editValue := Some ''"not json"'',
                     toasts := [ToastSuccess ''Node updated successfully!''],
                     isEditing := False\<rparr>\<close>
    by (simp add: E t q sample_state_fields)
  with h1 sample_parse(1) h5 s f1 f2 show ?thesis by blast
qed

subsection \<open>Extending an array\<close>

lemma SerializeJSONArray_append:
  "SerializeJSONArray rt ind (xs @ ys) = SerializeJSONArray rt ind xs @ SerializeJSONArray rt ind ys"
  by (induction xs) simp_all

lemma SerializeJSONArray_holes:
  "SerializeJSONArray rt ind (replicate k JUndefined) = replicate k ''null''"
  by (induction k) simp_all

lemma reparsed_elements_append:
  "reparsed_elements (xs @ ys) = reparsed_elements xs @ reparsed_elements ys"
  by (induction xs) simp_all

lemma reparsed_elements_holes: "reparsed_elements (replicate k JUndefined) = replicate k JNull"
  by (induction k) simp_all

text \<open>
  C10, as stated, fails on the code: an integer beyond the last array index,
  \<open>2^32 - 2\<close>, is at or beyond the length of every array, and the update succeeds, but
  the array is not extended. The integer names an ordinary property of the array
  object, which \<^verbatim>\<open>JSON.stringify\<close> does not print: the document returned is the old one.
\<close>

theorem index_beyond_array_limit_counterexample:
  \<open>JSON_parse sample_runtime ''[1]'' = Some (JArr [JNum 1])
   \<and> resolve (JArr [JNum 1]) [] = Some (JArr [JNum 1])
   \<and> int (length [JNum 1]) \<le> 4294967295
   \<and> setAt sample_runtime (JArr [JNum 1]) [Idx 4294967295] (JNum 7) = Inr (JArr [JNum 1])
   \<and> updateJsonAtPath sample_runtime ''[1]'' (Some [Idx 4294967295]) (JNum 7)
       = Inr (Some ''[\<newline>  1\<newline>]'')
   \<and> navigate sample_runtime (JArr [JNum 1]) [Idx 4294967295] = Inr JUndefined\<close>
proof -
  have t: \<open>json_text rt (JArr [JNum 1]) = Some ''[\<newline>  1\<newline>]''\<close> for rt by code_simp
  have f: "fits sample_runtime (JArr [JNum 1])" by (rule sample_fits [OF t]) simp
  have s: "setAt sample_runtime (JArr [JNum 1]) [Idx 4294967295] (JNum 7) = Inr (JArr [JNum 1])"
    by (simp add: setAt_def assign_at_def array_index_limit show_int_not_a_word
          sample_inherits sample_inherited_set_def)
  have u: \<open>updateJsonAtPath sample_runtime ''[1]'' (Some [Idx 4294967295]) (JNum 7)
       = Inr (Some ''[\<newline>  1\<newline>]'')\<close>
    using update_of_setAt(1) [OF sample_parse(4) s f] by (simp only: t)
  have n: "navigate sample_runtime (JArr [JNum 1]) [Idx 4294967295] = Inr JUndefined"
    by (simp add: array_index_limit show_int_not_a_word inherit_def sample_inherits
          sample_inherited_def)
  from sample_parse(4) s u n show ?thesis by simp
qed

text \<open>
  C10, amended. When the segments before the last resolve to an array, the last
  segment is an integer at or beyond the array's length and at most \<open>2^32 - 2\<close>, and
  the prototype chain lets the array grow under it, the assignment succeeds: the
  array is extended so that the index holds the value, the positions skipped are
  holes, and a hole is serialised as \<^verbatim>\<open>null\<close> (and is \<^verbatim>\<open>null\<close> in the value the text
  denotes). \<open>updateJsonAtPath\<close> returns the text of the document if it is within the
  length of the engine's strings, and fails otherwise.
\<close>

theorem array_extended_by_index:
  assumes "JSON_parse rt s = Some D"
    and "resolve D ks = Some (JArr xs)"
    and "int (length xs) \<le> n"
    and "n < 4294967295"
    and "InheritedSet rt KArray (show_int n) = Plain"
  shows "\<exists>D'. setAt rt D (ks @ [Idx n]) V = Inr D'
           \<and> resolve D' ks = Some (JArr (xs @ replicate (nat n - length xs) JUndefined @ [V]))
           \<and> resolve D' (ks @ [Idx n]) = Some V
           \<and> (fits rt D' \<longrightarrow>
                updateJsonAtPath rt s (Some (ks @ [Idx n])) V = Inr (json_text rt D'))
           \<and> (\<not> fits rt D' \<longrightarrow>
                updateJsonAtPath rt s (Some (ks @ [Idx n])) V = Inl update_failed)
           \<and> SerializeJSONArray rt ind (xs @ replicate (nat n - length xs) JUndefined @ [V])
               = SerializeJSONArray rt ind xs @ replicate (nat n - length xs) ''null''
                   @ SerializeJSONArray rt ind [V]
           \<and> reparsed (JArr (xs @ replicate (nat n - length xs) JUndefined @ [V]))
               = JArr (reparsed_elements xs @ replicate (nat n - length xs) JNull
                       @ reparsed_elements [V])"
proof -
  let ?new = "xs @ replicate (nat n - length xs) JUndefined @ [V]"
  let ?D' = "write_back D ks (JArr ?new)"
  have n0: "0 \<le> n" using assms(3) by linarith
  have i: "array_index (Idx n) = Some (nat n)" using n0 assms(4) by (simp add: array_index_Idx)
  have l: "\<not> nat n < length xs" using assms(3) by linarith
  have j: "js_set rt (JArr xs) (Idx n) V = Inr (JArr ?new)" using i l assms(5) by simp
  have "navigate rt D ks = Inr (JArr xs)" using assms(2) by (rule resolve_navigate_own)
  then have a: "assign_at rt D (ks @ [Idx n]) V = Inr ?D'"
    using j by (simp add: assign_at_def)
  then have s: "setAt rt D (ks @ [Idx n]) V = Inr ?D'" by (simp add: setAt_def)
  have u1: "updateJsonAtPath rt s (Some (ks @ [Idx n])) V = Inr (json_text rt ?D')"
    if "fits rt ?D'"
    using assms(1) s that by (rule update_of_setAt(1))
  have u2: "updateJsonAtPath rt s (Some (ks @ [Idx n])) V = Inl update_failed"
    if "\<not> fits rt ?D'"
    using assms(1) s that by (rule update_of_setAt(2))
  have n1: "resolve ?D' ks = Some (JArr ?new)"
    using assms(2) by (rule resolve_write_back) simp
  have "?new ! nat n = V" using l by (simp add: nth_append)
  moreover have "nat n < length ?new" using l by simp
  ultimately have "own_value (JArr ?new) (Idx n) = Some V" using i by simp
  then have n2: "resolve ?D' (ks @ [Idx n]) = Some V" using n1 by (simp add: resolve_append)
  have t: "SerializeJSONArray rt ind ?new
             = SerializeJSONArray rt ind xs @ replicate (nat n - length xs) ''null''
                 @ SerializeJSONArray rt ind [V]"
    by (simp only: SerializeJSONArray_append SerializeJSONArray_holes)
  have r: "reparsed (JArr ?new)
             = JArr (reparsed_elements xs @ replicate (nat n - length xs) JNull
                     @ reparsed_elements [V])"
    by (simp only: reparsed.simps reparsed_elements_append reparsed_elements_holes)
  from s u1 u2 n1 n2 t r show ?thesis by blast
qed

theorem array_extended_witness:
  \<open>JSON_parse sample_runtime ''[1]'' = Some (JArr [JNum 1])
   \<and> resolve (JArr [JNum 1]) [] = Some (JArr [JNum 1])
   \<and> int (length [JNum 1]) \<le> 3
   \<and> (3 :: int) < 4294967295
   \<and> InheritedSet sample_runtime KArray (show_int 3) = Plain
   \<and> setAt sample_runtime (JArr [JNum 1]) [Idx 3] (JNum 99)
       = Inr (JArr [JNum 1, JUndefined, JUndefined, JNum 99])
   \<and> fits sample_runtime (JArr [JNum 1, JUndefined, JUndefined, JNum 99])
   \<and> updateJsonAtPath sample_runtime ''[1]'' (Some [Idx 3]) (JNum 99)
       = Inr (Some ''[\<newline>  1,\<newline>  null,\<newline>  null,\<newline>  99\<newline>]'')
   \<and> reparsed (JArr [JNum 1, JUndefined, JUndefined, JNum 99])
       = JArr [JNum 1, JNull, JNull, JNum 99]\<close>
proof -
  let ?D' = "JArr [JNum 1, JUndefined, JUndefined, JNum 99]"
  have h1: "JSON_parse sample_runtime ''[1]'' = Some (JArr [JNum 1])" by (rule sample_parse)
  have h2: "resolve (JArr [JNum 1]) [] = Some (JArr [JNum 1])" by simp
  have h3: "int (length [JNum 1]) \<le> 3" by simp
  have h4: "(3 :: int) < 4294967295" by simp
  have h5: "InheritedSet sample_runtime KArray (show_int 3) = Plain"
    by (simp add: sample_inherits sample_inherited_set_def show_int_not_a_word)
  have e: "xs @ replicate (nat 3 - length [JNum 1]) JUndefined @ ys = xs @ [JUndefined, JUndefined] @ ys"
    for xs ys :: "jsval list"
    by (simp add: numeral_2_eq_2)
  have t: \<open>json_text rt ?D' = Some ''[\<newline>  1,\<newline>  null,\<newline>  null,\<newline>  99\<newline>]''\<close> for rt
    by code_simp
  have f: "fits sample_runtime ?D'" by (rule sample_fits [OF t]) simp
  have r: "reparsed ?D' = JArr [JNum 1, JNull, JNull, JNum 99]" by simp
  from array_extended_by_index [OF h1 h2 h3 h4 h5, of "JNum 99" "[]"]
  obtain D' where s: "setAt sample_runtime (JArr [JNum 1]) ([] @ [Idx 3]) (JNum 99) = Inr D'"
    and u: "fits sample_runtime D' \<longrightarrow>
              updateJsonAtPath sample_runtime ''[1]'' (Some ([] @ [Idx 3])) (JNum 99)
              = Inr (json_text sample_runtime D')"
    and n: "resolve D' [] =
              Some (JArr ([JNum 1] @ replicate (nat 3 - length [JNum 1]) JUndefined @ [JNum 99]))"
    by blast
  from n have d: "D' = ?D'"
    by (simp only: e resolve.simps) simp
  from u f have u': \<open>updateJsonAtPath sample_runtime ''[1]'' (Some [Idx 3]) (JNum 99)
       = Inr (Some ''[\<newline>  1,\<newline>  null,\<newline>  null,\<newline>  99\<newline>]'')\<close>
    by (simp add: d t)
  from s d have s': "setAt sample_runtime (JArr [JNum 1]) [Idx 3] (JNum 99) = Inr ?D'" by simp
  from h1 h2 h3 h4 h5 s' f u' r show ?thesis by blast
qed

text \<open>
  The failure for length, in a runtime whose strings hold twenty code units: the
  extended array has a text of twenty-nine.
\<close>

lemma extension_beyond_the_string_length:
  \<open>JSON_parse (sample_runtime\<lparr>MaxStringLength := 20\<rparr>) ''[1]'' = Some (JArr [JNum 1])
   \<and> setAt (sample_runtime\<lparr>MaxStringLength := 20\<rparr>) (JArr [JNum 1]) [Idx 3] (JNum 99)
       = Inr (JArr [JNum 1, JUndefined, JUndefined, JNum 99])
   \<and> fits (sample_runtime\<lparr>MaxStringLength := 20\<rparr>) (JArr [JNum 1, JUndefined, JUndefined, JNum 99])
       = False
   \<and> updateJsonAtPath (sample_runtime\<lparr>MaxStringLength := 20\<rparr>) ''[1]'' (Some [Idx 3]) (JNum 99)
       = Inl update_failed\<close>
proof -
  let ?rt = "sample_runtime\<lparr>MaxStringLength := 20\<rparr>"
  let ?D' = "JArr [JNum 1, JUndefined, JUndefined, JNum 99]"
  have p: "JSON_parse ?rt ''[1]'' = Some (JArr [JNum 1])" by (simp add: sample_parse)
  have t: \<open>json_text rt ?D' = Some ''[\<newline>  1,\<newline>  null,\<newline>  null,\<newline>  99\<newline>]''\<close> for rt
    by code_simp
  have f: "\<not> fits ?rt ?D'" by (simp add: fits_def t)
  have s: "setAt ?rt (JArr [JNum 1]) [Idx 3] (JNum 99) = Inr ?D'"
    by (simp add: setAt_def assign_at_def array_index_samples show_int_not_a_word
          sample_inherits sample_inherited_set_def numeral_3_eq_3)
  have u: "updateJsonAtPath ?rt ''[1]'' (Some [Idx 3]) (JNum 99) = Inl update_failed"
    using p s f by (rule update_of_setAt(2))
  from p s f u show ?thesis by simp
qed

subsection \<open>The preview\<close>

lemma keys_add_index_key:
  "set (map fst (add_index_key n kv kvs)) = insert (fst kv) (set (map fst kvs))"
  by (induction kvs) (auto split: option.splits)

lemma distinct_add_index_key:
  "fst kv \<notin> set (map fst kvs) \<Longrightarrow> distinct (map fst kvs) \<Longrightarrow>
   distinct (map fst (add_index_key n kv kvs))"
proof (induction kvs)
  case Nil
  then show ?case by simp
next
  case (Cons p ps)
  then show ?case using keys_add_index_key [of n kv ps] by (auto split: option.splits)
qed

lemma distinct_obj_set:
  assumes "distinct (map fst kvs)"
  shows "distinct (map fst (obj_set kvs k v))"
proof (cases "map_of kvs k")
  case None
  then have "k \<notin> set (map fst kvs)" by (simp add: map_of_eq_None_iff)
  then show ?thesis using assms None distinct_add_index_key [of "(k, v)" kvs]
    by (auto simp: obj_set_def split: option.splits)
next
  case (Some a)
  then show ?thesis using assms by (simp add: obj_set_def distinct_update)
qed

lemma shown_truthy:
  "shown row = (truthy_key (row_key row) \<and> row_type row \<noteq> ''array'' \<and> row_type row \<noteq> ''object'')"
  by (cases "row_key row") (simp_all add: shown_def truthy_key_def)

lemma add_row_hidden: "\<not> shown row \<Longrightarrow> add_row rt obj row = Inr obj"
  by (auto simp: add_row_def shown_truthy)

lemma add_row_shown:
  "shown row \<Longrightarrow> InheritedSet rt KObject (the (row_key row)) = Plain \<Longrightarrow>
   add_row rt obj row = Inr (obj_set obj (the (row_key row)) (js_of (row_value row)))"
  by (auto simp: add_row_def shown_truthy obj_put_def)

lemma forEach_row_plain:
  "plain_keys rt rows \<Longrightarrow> distinct (map fst obj) \<Longrightarrow>
   \<exists>obj'. forEach_row rt obj rows = Inr obj'
          \<and> distinct (map fst obj')
          \<and> map_of obj' = map_of obj ++ map_of (rev (shown_fields rows))"
proof (induction rows arbitrary: obj)
  case Nil
  then show ?case by (simp add: shown_fields_def)
next
  case (Cons r rs)
  have prs: "plain_keys rt rs" using Cons.prems(1) by (simp add: plain_keys_def)
  show ?case
  proof (cases "shown r")
    case True
    let ?o = "obj_set obj (the (row_key r)) (js_of (row_value r))"
    have "InheritedSet rt KObject (the (row_key r)) = Plain"
      using Cons.prems(1) True by (simp add: plain_keys_def)
    with True have a: "add_row rt obj r = Inr ?o" by (rule add_row_shown)
    have d: "distinct (map fst ?o)" using Cons.prems(2) by (rule distinct_obj_set)
    obtain obj' where f: "forEach_row rt ?o rs = Inr obj'" and d': "distinct (map fst obj')"
      and m: "map_of obj' = map_of ?o ++ map_of (rev (shown_fields rs))"
      using Cons.IH [OF prs d] by blast
    have f': "forEach_row rt obj (r # rs) = Inr obj'" using a f by simp
    have "map_of ?o ++ map_of (rev (shown_fields rs))
            = map_of obj ++ map_of (rev (shown_fields (r # rs)))"
      using True
      by (simp add: map_of_obj_set shown_fields_def fun_eq_iff map_add_def split: option.splits)
    with m have "map_of obj' = map_of obj ++ map_of (rev (shown_fields (r # rs)))" by simp
    with f' d' show ?thesis by blast
  next
    case False
    then have a: "add_row rt obj r = Inr obj" by (rule add_row_hidden)
    obtain obj' where f: "forEach_row rt obj rs = Inr obj'" and d': "distinct (map fst obj')"
      and m: "map_of obj' = map_of obj ++ map_of (rev (shown_fields rs))"
      using Cons.IH [OF prs Cons.prems(2)] by blast
    have f': "forEach_row rt obj (r # rs) = Inr obj'" using a f by simp
    have "shown_fields (r # rs) = shown_fields rs" using False by (simp add: shown_fields_def)
    with m f' d' show ?thesis by simp
  qed
qed

lemma template_text_cases:
  "template_text v =
     (case v of VStr s \<Rightarrow> s | VNum n \<Rightarrow> show_int n
              | VBool b \<Rightarrow> (if b then ''true'' else ''false'') | VNull \<Rightarrow> ''null'')"
  by (cases v) simp_all

text \<open>
  C9, as the specification states it, fails on the code for a field whose key is the
  empty string: the field has a key, yet alone it is rendered as its raw value, not
  wrapped in an object, and among other fields it is left out of the preview.
\<close>

theorem empty_key_counterexample:
  \<open>normalizeNodeData sample_runtime
      (Some [\<lparr>row_key = Some '''', row_value = VNum 1, row_type = ''number''\<rparr>])
     = Inr (Some ''1'')
   \<and> normalizeNodeData sample_runtime
      (Some [\<lparr>row_key = Some '''', row_value = VNum 1, row_type = ''number''\<rparr>,
             \<lparr>row_key = Some ''a'', row_value = VNum 2, row_type = ''number''\<rparr>])
     = Inr (Some ''{\<newline>  "a": 2\<newline>}'')\<close>
proof -
  have n: "show_int 1 = ''1''" by (rule show_int_samples)
  have a: \<open>normalizeNodeData sample_runtime
      (Some [\<lparr>row_key = Some '''', row_value = VNum 1, row_type = ''number''\<rparr>])
     = Inr (Some ''1'')\<close>
    by (simp add: normalizeNodeData_def truthy_key_def n)
  have t: \<open>json_text rt (JObj [(''a'', JNum 2)]) = Some ''{\<newline>  "a": 2\<newline>}''\<close> for rt
    by code_simp
  have s: \<open>JSON_stringify sample_runtime (JObj [(''a'', JNum 2)]) = Inr (Some ''{\<newline>  "a": 2\<newline>}'')\<close>
    by (rule sample_stringify [OF t]) simp
  have f: "forEach_row sample_runtime []
             [\<lparr>row_key = Some '''', row_value = VNum 1, row_type = ''number''\<rparr>,
              \<lparr>row_key = Some ''a'', row_value = VNum 2, row_type = ''number''\<rparr>]
           = Inr [(''a'', JNum 2)]"
    by (simp add: add_row_def truthy_key_def obj_put_def obj_set_def sample_inherits
          sample_inherited_set_def canonical_index_def numeral_value_def is_digit_def)
  have b: \<open>normalizeNodeData sample_runtime
      (Some [\<lparr>row_key = Some '''', row_value = VNum 1, row_type = ''number''\<rparr>,
             \<lparr>row_key = Some ''a'', row_value = VNum 2, row_type = ''number''\<rparr>])
     = Inr (Some ''{\<newline>  "a": 2\<newline>}'')\<close>
    using f s by (simp add: normalizeNodeData_def)
  from a b show ?thesis by simp
qed

text \<open>
  A field whose key the prototype chain answers with a setter is left out as well.
\<close>

lemma setter_takes_the_row:
  \<open>plain_keys sample_runtime
      [\<lparr>row_key = Some ''__proto__'', row_value = VNum 1, row_type = ''number''\<rparr>,
       \<lparr>row_key = Some ''a'', row_value = VNum 2, row_type = ''number''\<rparr>] = False
   \<and> shown \<lparr>row_key = Some ''__proto__'', row_value = VNum 1, row_type = ''number''\<rparr>
   \<and> forEach_row sample_runtime []
      [\<lparr>row_key = Some ''__proto__'', row_value = VNum 1, row_type = ''number''\<rparr>,
       \<lparr>row_key = Some ''a'', row_value = VNum 2, row_type = ''number''\<rparr>]
     = Inr [(''a'', JNum 2)]\<close>
  by (simp add: plain_keys_def shown_def add_row_def truthy_key_def obj_put_def obj_set_def
        sample_inherits sample_inherited_set_def canonical_index_def numeral_value_def
        is_digit_def)

text \<open>
  C9, amended. No rows, or an empty list of rows, give \<^verbatim>\<open>{}\<close>. A single row whose key is
  missing or empty gives the text of its value, not an object: a string as it is, a
  number in decimal, a boolean as \<^verbatim>\<open>true\<close> or \<^verbatim>\<open>false\<close>, \<^verbatim>\<open>null\<close> as \<^verbatim>\<open>null\<close>. For every other
  list, if no key of a row meets a setter or a refusal in the prototype chain, the
  object built has as keys exactly the keys of the rows with a key that is not empty
  and a type that is neither \<^verbatim>\<open>array\<close> nor \<^verbatim>\<open>object\<close>, each key once and with the value of
  the last such row, and the preview is the JSON text of that object if the text is
  within the length of the engine's strings.
\<close>

theorem preview_of_rows:
  assumes "plain_keys rt rows"
  shows "normalizeNodeData rt None = Inr (Some ''{}'')
   \<and> normalizeNodeData rt (Some []) = Inr (Some ''{}'')
   \<and> (row_key r = None \<or> row_key r = Some [] \<longrightarrow>
         normalizeNodeData rt (Some [r]) =
           Inr (Some (case row_value r of
                        VStr s \<Rightarrow> s
                      | VNum n \<Rightarrow> show_int n
                      | VBool b \<Rightarrow> (if b then ''true'' else ''false'')
                      | VNull \<Rightarrow> ''null'')))
   \<and> (rows \<noteq> []
        \<and> (length rows = 1 \<longrightarrow> row_key (hd rows) \<noteq> None \<and> row_key (hd rows) \<noteq> Some []) \<longrightarrow>
         (\<exists>obj. forEach_row rt [] rows = Inr obj
               \<and> distinct (map fst obj)
               \<and> map_of obj = map_of (rev (shown_fields rows))
               \<and> set (map fst obj) = set (map fst (shown_fields rows))
               \<and> (fits rt (JObj obj) \<longrightarrow>
                    normalizeNodeData rt (Some rows) = Inr (json_text rt (JObj obj)))
               \<and> (\<not> fits rt (JObj obj) \<longrightarrow>
                    normalizeNodeData rt (Some rows) = Inl RangeError)))"
proof -
  have a: "normalizeNodeData rt None = Inr (Some ''{}'')"
    and b: "normalizeNodeData rt (Some []) = Inr (Some ''{}'')"
    by (simp_all add: normalizeNodeData_def)
  have c: "normalizeNodeData rt (Some [r]) =
           Inr (Some (case row_value r of
                        VStr s \<Rightarrow> s
                      | VNum n \<Rightarrow> show_int n
                      | VBool b \<Rightarrow> (if b then ''true'' else ''false'')
                      | VNull \<Rightarrow> ''null''))"
    if "row_key r = None \<or> row_key r = Some []"
  proof -
    have "\<not> truthy_key (row_key r)" using that by (auto simp: truthy_key_def)
    then have "normalizeNodeData rt (Some [r]) = Inr (Some (template_text (row_value r)))"
      by (simp add: normalizeNodeData_def)
    then show ?thesis by (simp only: template_text_cases)
  qed
  have d: "\<exists>obj. forEach_row rt [] rows = Inr obj
               \<and> distinct (map fst obj)
               \<and> map_of obj = map_of (rev (shown_fields rows))
               \<and> set (map fst obj) = set (map fst (shown_fields rows))
               \<and> (fits rt (JObj obj) \<longrightarrow>
                    normalizeNodeData rt (Some rows) = Inr (json_text rt (JObj obj)))
               \<and> (\<not> fits rt (JObj obj) \<longrightarrow>
                    normalizeNodeData rt (Some rows) = Inl RangeError)"
    if ne: "rows \<noteq> []"
      and k: "length rows = 1 \<longrightarrow> row_key (hd rows) \<noteq> None \<and> row_key (hd rows) \<noteq> Some []"
  proof -
    obtain obj where f: "forEach_row rt [] rows = Inr obj" and di: "distinct (map fst obj)"
      and m: "map_of obj = map_of (rev (shown_fields rows))"
      using forEach_row_plain [OF assms, of "[]"] by auto
    have "dom (map_of obj) = dom (map_of (rev (shown_fields rows)))" using m by simp
    then have ks: "set (map fst obj) = set (map fst (shown_fields rows))"
      by (simp add: dom_map_of_conv_image_fst)
    have t: "length rows = 1 \<longrightarrow> truthy_key (row_key (rows ! 0))"
      using k ne by (cases rows) (auto simp: truthy_key_def split: option.splits)
    have n: "normalizeNodeData rt (Some rows) = JSON_stringify rt (JObj obj)"
      using ne t f by (auto simp: normalizeNodeData_def)
    have n1: "normalizeNodeData rt (Some rows) = Inr (json_text rt (JObj obj))"
      if "fits rt (JObj obj)"
      using n that by (simp add: fits_stringify)
    have n2: "normalizeNodeData rt (Some rows) = Inl RangeError" if "\<not> fits rt (JObj obj)"
      using n that by (simp add: fits_stringify)
    from f di m ks n1 n2 show ?thesis by blast
  qed
  from a b c d show ?thesis by blast
qed

theorem preview_of_rows_witness:
  \<open>plain_keys sample_runtime
       [\<lparr>row_key = Some ''name'', row_value = VStr ''Ann'', row_type = ''string''\<rparr>,
        \<lparr>row_key = Some ''orders'', row_value = VStr ''[2 items]'', row_type = ''array''\<rparr>,
        \<lparr>row_key = Some ''age'', row_value = VNum 7, row_type = ''number''\<rparr>,
        \<lparr>row_key = Some ''ok'', row_value = VBool True, row_type = ''boolean''\<rparr>,
        \<lparr>row_key = None, row_value = VStr ''loose'', row_type = ''string''\<rparr>,
        \<lparr>row_key = Some ''none'', row_value = VNull, row_type = ''null''\<rparr>]
   \<and> normalizeNodeData sample_runtime
       (Some [\<lparr>row_key = None, row_value = VStr ''hello'', row_type = ''string''\<rparr>])
     = Inr (Some ''hello'')
   \<and> normalizeNodeData sample_runtime
       (Some [\<lparr>row_key = None, row_value = VNum 7, row_type = ''number''\<rparr>])
     = Inr (Some ''7'')
   \<and> normalizeNodeData sample_runtime
       (Some [\<lparr>row_key = None, row_value = VBool False, row_type = ''boolean''\<rparr>])
     = Inr (Some ''false'')
   \<and> normalizeNodeData sample_runtime
       (Some [\<lparr>row_key = None, row_value = VNull, row_type = ''null''\<rparr>])
     = Inr (Some ''null'')
   \<and> shown_fields
       [\<lparr>row_key = Some ''name'', row_value = VStr ''Ann'', row_type = ''string''\<rparr>,
        \<lparr>row_key = Some ''orders'', row_value = VStr ''[2 items]'', row_type = ''array''\<rparr>,
        \<lparr>row_key = Some ''age'', row_value = VNum 7, row_type = ''number''\<rparr>,
        \<lparr>row_key = Some ''ok'', row_value = VBool True, row_type = ''boolean''\<rparr>,
        \<lparr>row_key = None, row_value = VStr ''loose'', row_type = ''string''\<rparr>,
        \<lparr>row_key = Some ''none'', row_value = VNull, row_type = ''null''\<rparr>]
     = [(''name'', JStr ''Ann''), (''age'', JNum 7), (''ok'', JBool True), (''none'', JNull)]
   \<and> fits sample_runtime
       (JObj [(''name'', JStr ''Ann''), (''age'', JNum 7), (''ok'', JBool True), (''none'', JNull)])
   \<and> normalizeNodeData sample_runtime
       (Some [\<lparr>row_key = Some ''name'', row_value = VStr ''Ann'', row_type = ''string''\<rparr>,
              \<lparr>row_key = Some ''orders'', row_value = VStr ''[2 items]'', row_type = ''array''\<rparr>,
              \<lparr>row_key = Some ''age'', row_value = VNum 7, row_type = ''number''\<rparr>,
              \<lparr>row_key = Some ''ok'', row_value = VBool True, row_type = ''boolean''\<rparr>,
              \<lparr>row_key = None, row_value = VStr ''loose'', row_type = ''string''\<rparr>,
              \<lparr>row_key = Some ''none'', row_value = VNull, row_type = ''null''\<rparr>])
     = Inr (Some ''{\<newline>  "name": "Ann",\<newline>  "age": 7,\<newline>  "ok": true,\<newline>  "none": null\<newline>}'')\<close>
proof -
  let ?rows = "[\<lparr>row_key = Some ''name'', row_value = VStr ''Ann'', row_type = ''string''\<rparr>,
        \<lparr>row_key = Some ''orders'', row_value = VStr ''[2 items]'', row_type = ''array''\<rparr>,
        \<lparr>row_key = Some ''age'', row_value = VNum 7, row_type = ''number''\<rparr>,
        \<lparr>row_key = Some ''ok'', row_value = VBool True, row_type = ''boolean''\<rparr>,
        \<lparr>row_key = None, row_value = VStr ''loose'', row_type = ''string''\<rparr>,
        \<lparr>row_key = Some ''none'', row_value = VNull, row_type = ''null''\<rparr>]"
  let ?obj = "[(''name'', JStr ''Ann''), (''age'', JNum 7), (''ok'', JBool True), (''none'', JNull)]"
  have pk: "plain_keys sample_runtime ?rows"
    by (simp add: plain_keys_def shown_def sample_inherits sample_inherited_set_def)
  have s7: "show_int 7 = ''7''" by code_simp
  note th = preview_of_rows [OF pk]
  have r1: "normalizeNodeData sample_runtime
       (Some [\<lparr>row_key = None, row_value = VStr ''hello'', row_type = ''string''\<rparr>])
     = Inr (Some ''hello'')"
    using th [of "\<lparr>row_key = None, row_value = VStr ''hello'', row_type = ''string''\<rparr>"] by simp
  have r2: "normalizeNodeData sample_runtime
       (Some [\<lparr>row_key = None, row_value = VNum 7, row_type = ''number''\<rparr>])
     = Inr (Some ''7'')"
    using th [of "\<lparr>row_key = None, row_value = VNum 7, row_type = ''number''\<rparr>"]
    by (simp add: s7)
  have r3: "normalizeNodeData sample_runtime
       (Some [\<lparr>row_key = None, row_value = VBool False, row_type = ''boolean''\<rparr>])
     = Inr (Some ''false'')"
    using th [of "\<lparr>row_key = None, row_value = VBool False, row_type = ''boolean''\<rparr>"] by simp
  have r4: "normalizeNodeData sample_runtime
       (Some [\<lparr>row_key = None, row_value = VNull, row_type = ''null''\<rparr>])
     = Inr (Some ''null'')"
    using th [of "\<lparr>row_key = None, row_value = VNull, row_type = ''null''\<rparr>"] by simp
  have sf: "shown_fields ?rows = ?obj" by (simp add: shown_fields_def shown_def)
  have t: \<open>json_text rt (JObj ?obj)
            = Some ''{\<newline>  "name": "Ann",\<newline>  "age": 7,\<newline>  "ok": true,\<newline>  "none": null\<newline>}''\<close> for rt
    by code_simp
  have f: "fits sample_runtime (JObj ?obj)" by (rule sample_fits [OF t]) simp
  have fe: "forEach_row sample_runtime [] ?rows = Inr ?obj"
    by (simp add: add_row_def truthy_key_def obj_put_def obj_set_def sample_inherits
          sample_inherited_set_def canonical_index_def numeral_value_def is_digit_def)
  have h: "?rows \<noteq> [] \<and> (length ?rows = 1 \<longrightarrow>
             row_key (hd ?rows) \<noteq> None \<and> row_key (hd ?rows) \<noteq> Some [])" by simp
  from th h obtain obj where o1: "forEach_row sample_runtime [] ?rows = Inr obj"
    and o2: "fits sample_runtime (JObj obj) \<longrightarrow>
               normalizeNodeData sample_runtime (Some ?rows) = Inr (json_text sample_runtime (JObj obj))"
    by blast
  from o1 fe have "obj = ?obj" by simp
  with o2 f have \<open>normalizeNodeData sample_runtime (Some ?rows)
     = Inr (Some ''{\<newline>  "name": "Ann",\<newline>  "age": 7,\<newline>  "ok": true,\<newline>  "none": null\<newline>}'')\<close>
    by (simp only: t)
  with pk r1 r2 r3 r4 sf f show ?thesis by blast
qed

end
